theory Spec2Isabelle
  imports Main "HOL-Library.Word"
begin

unbundle bit_operations_syntax

section \<open>Core types (core/types.ts)\<close>

text \<open>
  The engine's \<open>number\<close> fields (coordinates, hit points, turn counter, damage) hold
  integers and are modelled as \<open>int\<close>. String-valued enumerations become datatypes; a
  Quantar id is a \<open>string\<close>. Field names carry a prefix where two interfaces of the
  source share a name (\<open>owner\<close>, \<open>position\<close>, \<open>hp\<close>) or where the name is taken in
  HOL (\<open>id\<close>, \<open>x\<close>, \<open>y\<close> as variables).
\<close>

datatype PlayerId = PlayerA | PlayerB

datatype Direction = North | East | South | West

datatype PulseDirection =
  PulseNorth | PulseEast | PulseSouth | PulseWest
  | NorthEast | NorthWest | SouthEast | SouthWest

datatype GamePhase = Playing | Ended

datatype EntityType = EntityQuantar | EntityCore

record Position =
  pos_x :: int
  pos_y :: int

record Quantar =
  q_id :: string
  q_owner :: PlayerId
  q_position :: Position
  q_hp :: int

record Core =
  c_owner :: PlayerId
  c_position :: Position
  c_hp :: int

datatype Action =
  MoveAction string Direction
  | PulseAction string PulseDirection
  | ShieldAction string

fun quantarId :: "Action \<Rightarrow> string" where
  "quantarId (MoveAction i _) = i"
| "quantarId (PulseAction i _) = i"
| "quantarId (ShieldAction i) = i"

text \<open>\<open>cores: { A: Core; B: Core }\<close> is the pair of fields \<open>coreA\<close>, \<open>coreB\<close>;
  \<open>winner: PlayerId | null\<close> is an option.\<close>

record GameState =
  turn :: int
  phase :: GamePhase
  quantars :: "Quantar list"
  coreA :: Core
  coreB :: Core
  winner :: "PlayerId option"

datatype TurnEvent =
  Move string Position Position
  | MoveBlocked string Position Direction string
  | PulseFired string Position PulseDirection
  | PulseHit string EntityType int
  | PulseMiss string
  | ShieldActivated string
  | DamageApplied string int int
  | EntityDestroyed string EntityType
  | TerminalLoss PlayerId string
  | GameOver PlayerId
  | Draw string

record TurnLog =
  log_turn :: int
  log_events :: "TurnEvent list"

record TurnInput =
  in_state :: GameState
  actionsA :: "Action list"
  actionsB :: "Action list"

record TurnResult =
  state :: GameState
  log :: TurnLog

definition BOARD_SIZE :: int where "BOARD_SIZE = 9"
definition CORE_HP :: int where "CORE_HP = 5"
definition QUANTAR_HP :: int where "QUANTAR_HP = 2"
definition PULSE_DAMAGE :: int where "PULSE_DAMAGE = 1"
definition SHIELD_REDUCTION :: int where "SHIELD_REDUCTION = 1"
definition MAX_TURNS :: int where "MAX_TURNS = 50"

text \<open>
  A \<open>number\<close> is an IEEE double. The sum of two integer-valued numbers is the exact
  integer sum rounded to the nearest double, ties to the even significand: exact up to
  magnitude \<open>2^53\<close>, and beyond it a multiple of the spacing \<open>2^s\<close> of the doubles of
  that size (sums of magnitude \<open>2^1024\<close> and more, which overflow, are not modelled).
  \<open>numberAdd\<close> is the \<open>+\<close> of the turn counter, whose value is unbounded; hit points,
  damage and coordinates are counted in exact integers.
\<close>

fun bitLength :: "nat \<Rightarrow> nat" where
  "bitLength n = (if n = 0 then 0 else Suc (bitLength (n div 2)))"

declare bitLength.simps [simp del]

definition roundToDouble :: "int \<Rightarrow> int" where
  "roundToDouble n =
     (if \<bar>n\<bar> \<le> 2 ^ 53 then n
      else
        let s = bitLength (nat \<bar>n\<bar>) - 53;
            q = \<bar>n\<bar> div 2 ^ s;
            r = \<bar>n\<bar> mod 2 ^ s;
            q' = (if 2 * r > 2 ^ s \<or> (2 * r = 2 ^ s \<and> odd q) then q + 1 else q)
        in sgn n * q' * 2 ^ s)"

definition numberAdd :: "int \<Rightarrow> int \<Rightarrow> int" where
  "numberAdd a b = roundToDouble (a + b)"

definition ALL_DIRECTIONS :: "Direction list" where
  "ALL_DIRECTIONS = [North, East, South, West]"

definition ALL_PULSE_DIRECTIONS :: "PulseDirection list" where
  "ALL_PULSE_DIRECTIONS =
     [PulseNorth, PulseEast, PulseSouth, PulseWest, NorthEast, NorthWest, SouthEast, SouthWest]"

definition DIAGONAL_DIRECTIONS :: "PulseDirection list" where
  "DIAGONAL_DIRECTIONS = [NorthEast, NorthWest, SouthEast, SouthWest]"

text \<open>How values are rendered inside template literals: a player identifier is its
  one-letter string, an integer \<open>number\<close> is its decimal numeral with a leading
  minus sign when negative. This is how the platform prints every integer of magnitude
  below \<open>10^21\<close>; from there on it prints an exponent form, which \<open>numberToString\<close>
  does not render. No property below depends on the text of a numeral that large.\<close>

fun playerString :: "PlayerId \<Rightarrow> string" where
  "playerString PlayerA = ''A''"
| "playerString PlayerB = ''B''"

definition digitChar :: "nat \<Rightarrow> char" where
  "digitChar d = ''0123456789abcdef'' ! d"

fun natToString :: "nat \<Rightarrow> nat \<Rightarrow> string" where
  "natToString radix n =
     (if radix < 2 \<or> n < radix then [digitChar n]
      else natToString radix (n div radix) @ [digitChar (n mod radix)])"

declare natToString.simps [simp del]

definition numberToString :: "int \<Rightarrow> string" where
  "numberToString n =
     (if n < 0 then ''-'' @ natToString 10 (nat (- n)) else natToString 10 (nat n))"

section \<open>State queries (core/state.ts)\<close>

text \<open>\<open>Array.prototype.find\<close>: the first element satisfying the predicate, if any.
  \<open>findIndex\<close> gives its index, which stands for the reference to the found object
  where the source later mutates it.\<close>

fun findIndex :: "('a \<Rightarrow> bool) \<Rightarrow> 'a list \<Rightarrow> nat option" where
  "findIndex P [] = None"
| "findIndex P (v # vs) =
     (if P v then Some 0 else (case findIndex P vs of None \<Rightarrow> None | Some i \<Rightarrow> Some (Suc i)))"

definition getQuantar :: "GameState \<Rightarrow> string \<Rightarrow> Quantar option" where
  "getQuantar st i = List.find (\<lambda>q. q_id q = i) (quantars st)"

definition getPlayerQuantars :: "GameState \<Rightarrow> PlayerId \<Rightarrow> Quantar list" where
  "getPlayerQuantars st p = filter (\<lambda>q. q_owner q = p) (quantars st)"

definition isInBounds :: "Position \<Rightarrow> bool" where
  "isInBounds p \<longleftrightarrow> pos_x p \<ge> 0 \<and> pos_x p < 9 \<and> pos_y p \<ge> 0 \<and> pos_y p < 9"

definition positionsEqual :: "Position \<Rightarrow> Position \<Rightarrow> bool" where
  "positionsEqual a b \<longleftrightarrow> pos_x a = pos_x b \<and> pos_y a = pos_y b"

definition createQuantar :: "PlayerId \<Rightarrow> nat \<Rightarrow> Position \<Rightarrow> Quantar" where
  "createQuantar ow index p =
     \<lparr>q_id = playerString ow @ numberToString (int index + 1), q_owner = ow,
      q_position = p, q_hp = QUANTAR_HP\<rparr>"

definition createCore :: "PlayerId \<Rightarrow> Position \<Rightarrow> Core" where
  "createCore ow p = \<lparr>c_owner = ow, c_position = p, c_hp = CORE_HP\<rparr>"

definition createInitialState :: GameState where
  "createInitialState =
     \<lparr>turn = 1, phase = Playing,
      quantars =
        map (\<lambda>(i, p). createQuantar PlayerA i p)
          (enumerate 0 [\<lparr>pos_x = 3, pos_y = 6\<rparr>, \<lparr>pos_x = 4, pos_y = 6\<rparr>, \<lparr>pos_x = 5, pos_y = 6\<rparr>])
        @ map (\<lambda>(i, p). createQuantar PlayerB i p)
          (enumerate 0 [\<lparr>pos_x = 3, pos_y = 2\<rparr>, \<lparr>pos_x = 4, pos_y = 2\<rparr>, \<lparr>pos_x = 5, pos_y = 2\<rparr>]),
      coreA = createCore PlayerA \<lparr>pos_x = 4, pos_y = 8\<rparr>,
      coreB = createCore PlayerB \<lparr>pos_x = 4, pos_y = 0\<rparr>,
      winner = None\<rparr>"

section \<open>Direction helpers (actions/validate.ts)\<close>

definition isValidDirection :: "Direction \<Rightarrow> bool" where
  "isValidDirection dir \<longleftrightarrow> dir \<in> set ALL_DIRECTIONS"

definition isValidPulseDirection :: "PulseDirection \<Rightarrow> bool" where
  "isValidPulseDirection dir \<longleftrightarrow> dir \<in> set ALL_PULSE_DIRECTIONS"

definition isDiagonalPulse :: "PulseDirection \<Rightarrow> bool" where
  "isDiagonalPulse dir \<longleftrightarrow> dir \<in> set DIAGONAL_DIRECTIONS"

fun DIRECTION_DELTAS :: "Direction \<Rightarrow> Position" where
  "DIRECTION_DELTAS North = \<lparr>pos_x = 0, pos_y = -1\<rparr>"
| "DIRECTION_DELTAS East = \<lparr>pos_x = 1, pos_y = 0\<rparr>"
| "DIRECTION_DELTAS South = \<lparr>pos_x = 0, pos_y = 1\<rparr>"
| "DIRECTION_DELTAS West = \<lparr>pos_x = -1, pos_y = 0\<rparr>"

fun PULSE_DIRECTION_DELTAS :: "PulseDirection \<Rightarrow> Position" where
  "PULSE_DIRECTION_DELTAS PulseNorth = \<lparr>pos_x = 0, pos_y = -1\<rparr>"
| "PULSE_DIRECTION_DELTAS PulseEast = \<lparr>pos_x = 1, pos_y = 0\<rparr>"
| "PULSE_DIRECTION_DELTAS PulseSouth = \<lparr>pos_x = 0, pos_y = 1\<rparr>"
| "PULSE_DIRECTION_DELTAS PulseWest = \<lparr>pos_x = -1, pos_y = 0\<rparr>"
| "PULSE_DIRECTION_DELTAS NorthEast = \<lparr>pos_x = 1, pos_y = -1\<rparr>"
| "PULSE_DIRECTION_DELTAS NorthWest = \<lparr>pos_x = -1, pos_y = -1\<rparr>"
| "PULSE_DIRECTION_DELTAS SouthEast = \<lparr>pos_x = 1, pos_y = 1\<rparr>"
| "PULSE_DIRECTION_DELTAS SouthWest = \<lparr>pos_x = -1, pos_y = 1\<rparr>"

definition applyDirection :: "Position \<Rightarrow> Direction \<Rightarrow> Position" where
  "applyDirection pos dir =
     (let d = DIRECTION_DELTAS dir in \<lparr>pos_x = pos_x pos + pos_x d, pos_y = pos_y pos + pos_y d\<rparr>)"

definition applyPulseDirection :: "Position \<Rightarrow> PulseDirection \<Rightarrow> Position" where
  "applyPulseDirection pos dir =
     (let d = PULSE_DIRECTION_DELTAS dir
      in \<lparr>pos_x = pos_x pos + pos_x d, pos_y = pos_y pos + pos_y d\<rparr>)"

section \<open>Turn resolution pipeline (resolution/pipeline.ts)\<close>

subsection \<open>Internal state, mutable during resolution\<close>

record MutableQuantar =
  m_id :: string
  m_owner :: PlayerId
  m_position :: Position
  m_hp :: int
  shielded :: bool
  pendingDamage :: int

record MutableCore =
  mc_owner :: PlayerId
  mc_position :: Position
  mc_hp :: int
  mc_pendingDamage :: int

record ResolutionState =
  r_quantars :: "MutableQuantar list"
  r_coreA :: MutableCore
  r_coreB :: MutableCore
  events :: "TurnEvent list"

definition toMutableQuantar :: "Quantar \<Rightarrow> MutableQuantar" where
  "toMutableQuantar q =
     \<lparr>m_id = q_id q, m_owner = q_owner q, m_position = q_position q, m_hp = q_hp q,
      shielded = False, pendingDamage = 0\<rparr>"

definition toMutableCore :: "Core \<Rightarrow> MutableCore" where
  "toMutableCore c =
     \<lparr>mc_owner = c_owner c, mc_position = c_position c, mc_hp = c_hp c, mc_pendingDamage = 0\<rparr>"

definition toImmutableQuantar :: "MutableQuantar \<Rightarrow> Quantar" where
  "toImmutableQuantar q =
     \<lparr>q_id = m_id q, q_owner = m_owner q, q_position = m_position q, q_hp = m_hp q\<rparr>"

definition toImmutableCore :: "MutableCore \<Rightarrow> Core" where
  "toImmutableCore c = \<lparr>c_owner = mc_owner c, c_position = mc_position c, c_hp = mc_hp c\<rparr>"

text \<open>
  The source hands out references to the objects of \<open>state.quantars\<close> and mutates
  them later. A reference is modelled as the index of the object in \<open>r_quantars\<close>:
  \<open>getQuantarById\<close> returns the index of the first Quantar with the id.
\<close>

definition getQuantarById :: "ResolutionState \<Rightarrow> string \<Rightarrow> nat option" where
  "getQuantarById st i = findIndex (\<lambda>q. m_id q = i) (r_quantars st)"

text \<open>The occupant of a cell: a reference to a live Quantar, else to the Core in slot
  \<open>A\<close> or \<open>B\<close> of \<open>state.cores\<close>.\<close>

datatype EntityRef = QuantarRef nat | CoreRef PlayerId

definition getEntityAtPosition :: "ResolutionState \<Rightarrow> Position \<Rightarrow> EntityRef option" where
  "getEntityAtPosition st p =
     (case findIndex (\<lambda>q. m_hp q > 0 \<and> positionsEqual (m_position q) p) (r_quantars st) of
        Some i \<Rightarrow> Some (QuantarRef i)
      | None \<Rightarrow>
          if positionsEqual (mc_position (r_coreA st)) p then Some (CoreRef PlayerA)
          else if positionsEqual (mc_position (r_coreB st)) p then Some (CoreRef PlayerB)
          else None)"

definition pushEvents :: "ResolutionState \<Rightarrow> TurnEvent list \<Rightarrow> ResolutionState" where
  "pushEvents st evs = st\<lparr>events := events st @ evs\<rparr>"

subsection \<open>Phase 1: MOVE\<close>

text \<open>An entry of \<open>intendedMoves\<close>. \<open>move_quantar\<close> is the reference to the moving
  Quantar; of \<open>action\<close> only the direction is ever read, and it alone is kept.\<close>

record IntendedMove =
  move_quantar :: nat
  move_from :: Position
  move_to :: Position
  move_direction :: Direction

fun moveActions :: "Action list \<Rightarrow> (string \<times> Direction) list" where
  "moveActions [] = []"
| "moveActions (MoveAction i d # acts) = (i, d) # moveActions acts"
| "moveActions (_ # acts) = moveActions acts"

text \<open>The first loop: each Move action yields nothing (unknown or dead Quantar), an
  "out of bounds" event, or an intended move. No Quantar changes during this loop, so
  the intended moves and the events are collected side by side.\<close>

fun intendedMoves :: "ResolutionState \<Rightarrow> (string \<times> Direction) list
    \<Rightarrow> IntendedMove list \<times> TurnEvent list" where
  "intendedMoves st [] = ([], [])"
| "intendedMoves st ((i, dir) # acts) =
     (let (ms, evs) = intendedMoves st acts in
      case getQuantarById st i of
        None \<Rightarrow> (ms, evs)
      | Some k \<Rightarrow>
          let quantar = r_quantars st ! k in
          if m_hp quantar \<le> 0 then (ms, evs)
          else
            let from = m_position quantar; to = applyDirection from dir in
            if \<not> isInBounds to
            then (ms, MoveBlocked (m_id quantar) from dir ''out of bounds'' # evs)
            else (\<lparr>move_quantar = k, move_from = from, move_to = to, move_direction = dir\<rparr> # ms,
                  evs))"

definition moveQuantarId :: "ResolutionState \<Rightarrow> IntendedMove \<Rightarrow> string" where
  "moveQuantarId st m = m_id (r_quantars st ! move_quantar m)"

definition moveBlockedEvent :: "ResolutionState \<Rightarrow> IntendedMove \<Rightarrow> string \<Rightarrow> TurnEvent" where
  "moveBlockedEvent st m reason =
     MoveBlocked (moveQuantarId st m) (move_from m) (move_direction m) reason"

definition coreCollision :: "ResolutionState \<Rightarrow> IntendedMove \<Rightarrow> bool" where
  "coreCollision st m \<longleftrightarrow>
     positionsEqual (move_to m) (mc_position (r_coreA st)) \<or>
     positionsEqual (move_to m) (mc_position (r_coreB st))"

definition validMoves :: "ResolutionState \<Rightarrow> IntendedMove list \<Rightarrow> IntendedMove list" where
  "validMoves st ms = filter (\<lambda>m. \<not> coreCollision st m) ms"

definition coreBlockedEvents :: "ResolutionState \<Rightarrow> IntendedMove list \<Rightarrow> TurnEvent list" where
  "coreBlockedEvents st ms =
     map (\<lambda>m. moveBlockedEvent st m ''blocked by Core'') (filter (coreCollision st) ms)"

text \<open>\<open>destinationCounts\<close> is keyed by the string \<open>x,y\<close>, which determines the integer
  pair, so the count of a destination is the number of valid moves going there.
  \<open>movesByQuantar\<close> is a map from Quantar id to move, built in list order: a later
  entry for the same id replaces an earlier one.\<close>

definition destinationCounts :: "IntendedMove list \<Rightarrow> Position \<Rightarrow> nat" where
  "destinationCounts vms p = length (filter (\<lambda>m. move_to m = p) vms)"

definition movesByQuantar :: "ResolutionState \<Rightarrow> IntendedMove list \<Rightarrow> string \<rightharpoonup> IntendedMove" where
  "movesByQuantar st vms = foldl (\<lambda>mp m. mp(moveQuantarId st m \<mapsto> m)) Map.empty vms"

definition targetOccupant :: "ResolutionState \<Rightarrow> IntendedMove \<Rightarrow> MutableQuantar option" where
  "targetOccupant st m =
     List.find (\<lambda>q. m_hp q > 0 \<and> m_id q \<noteq> moveQuantarId st m \<and>
                    positionsEqual (m_position q) (move_to m)) (r_quantars st)"

text \<open>The callback of the filter producing \<open>finalMoves\<close>: \<open>None\<close> when it returns
  true, otherwise the reason of the MoveBlocked event it pushes before returning false.\<close>

definition blockReason :: "ResolutionState \<Rightarrow> IntendedMove list \<Rightarrow> IntendedMove \<Rightarrow> string option" where
  "blockReason st vms m =
     (if destinationCounts vms (move_to m) > 1 then Some ''collision with another Quantar''
      else
        case targetOccupant st m of
          None \<Rightarrow> None
        | Some occupant \<Rightarrow>
            (case movesByQuantar st vms (m_id occupant) of
               None \<Rightarrow> Some ''blocked by stationary Quantar''
             | Some occupantMove \<Rightarrow>
                 if positionsEqual (move_to occupantMove) (move_from m)
                 then Some ''swap collision''
                 else None))"

definition finalMoves :: "ResolutionState \<Rightarrow> IntendedMove list \<Rightarrow> IntendedMove list" where
  "finalMoves st vms = filter (\<lambda>m. blockReason st vms m = None) vms"

definition collisionEvents :: "ResolutionState \<Rightarrow> IntendedMove list \<Rightarrow> TurnEvent list" where
  "collisionEvents st vms =
     concat (map (\<lambda>m. case blockReason st vms m of
                          None \<Rightarrow> []
                        | Some reason \<Rightarrow> [moveBlockedEvent st m reason]) vms)"

text \<open>The last loop assigns the new positions one move after the other.\<close>

fun applyMoves :: "ResolutionState \<Rightarrow> IntendedMove list \<Rightarrow> ResolutionState" where
  "applyMoves st [] = st"
| "applyMoves st (m # ms) =
     applyMoves
       (pushEvents
          (st\<lparr>r_quantars :=
                (r_quantars st)[move_quantar m :=
                   (r_quantars st ! move_quantar m)\<lparr>m_position := move_to m\<rparr>]\<rparr>)
          [Move (moveQuantarId st m) (move_from m) (move_to m)])
       ms"

definition resolveMoves :: "ResolutionState \<Rightarrow> Action list \<Rightarrow> ResolutionState" where
  "resolveMoves st actions =
     (let (ims, oobEvents) = intendedMoves st (moveActions actions);
          vms = validMoves st ims;
          fms = finalMoves st vms;
          st1 = pushEvents st (oobEvents @ coreBlockedEvents st ims @ collisionEvents st vms)
      in applyMoves st1 fms)"

subsection \<open>Phase 2: SHIELD\<close>

fun shieldActions :: "Action list \<Rightarrow> string list" where
  "shieldActions [] = []"
| "shieldActions (ShieldAction i # acts) = i # shieldActions acts"
| "shieldActions (_ # acts) = shieldActions acts"

definition resolveShield :: "ResolutionState \<Rightarrow> string \<Rightarrow> ResolutionState" where
  "resolveShield st i =
     (case getQuantarById st i of
        None \<Rightarrow> st
      | Some k \<Rightarrow>
          let quantar = r_quantars st ! k in
          if m_hp quantar \<le> 0 then st
          else pushEvents
                 (st\<lparr>r_quantars := (r_quantars st)[k := quantar\<lparr>shielded := True\<rparr>]\<rparr>)
                 [ShieldActivated (m_id quantar)])"

definition resolveShields :: "ResolutionState \<Rightarrow> Action list \<Rightarrow> ResolutionState" where
  "resolveShields st actions = foldl resolveShield st (shieldActions actions)"

subsection \<open>Phase 3: PULSE\<close>

fun pulseActions :: "Action list \<Rightarrow> (string \<times> PulseDirection) list" where
  "pulseActions [] = []"
| "pulseActions (PulseAction i d # acts) = (i, d) # pulseActions acts"
| "pulseActions (_ # acts) = pulseActions acts"

text \<open>The \<open>while (true)\<close> loop of an orthogonal pulse: step, stop off the board, stop at
  the first occupied cell. Every step moves towards an edge of the board, and the loop
  only continues from a cell on the board, which bounds the number of steps.\<close>

definition beamRoom :: "Position \<Rightarrow> PulseDirection \<Rightarrow> nat" where
  "beamRoom p dir =
     (let d = PULSE_DIRECTION_DELTAS dir in
      if pos_x d = 1 then nat (9 - pos_x p)
      else if pos_x d = -1 then nat (pos_x p + 1)
      else if pos_y d = 1 then nat (9 - pos_y p)
      else nat (pos_y p + 1))"

function tracePulse :: "ResolutionState \<Rightarrow> Position \<Rightarrow> PulseDirection \<Rightarrow> EntityRef option" where
  "tracePulse st currentPos dir =
     (if \<not> isInBounds (applyPulseDirection currentPos dir) then None
      else
        case getEntityAtPosition st (applyPulseDirection currentPos dir) of
          Some entity \<Rightarrow> Some entity
        | None \<Rightarrow> tracePulse st (applyPulseDirection currentPos dir) dir)"
  by pat_completeness auto
termination
proof (relation "measure (\<lambda>(st, p, dir). beamRoom p dir)")
  show "wf (measure (\<lambda>(st, p, dir). beamRoom p dir))"
    by simp
next
  fix st :: ResolutionState and currentPos :: Position and dir :: PulseDirection
  assume "\<not> \<not> isInBounds (applyPulseDirection currentPos dir)"
  then show "((st, applyPulseDirection currentPos dir, dir), (st, currentPos, dir))
      \<in> measure (\<lambda>(st, p, dir). beamRoom p dir)"
    by (cases dir) (simp_all add: beamRoom_def applyPulseDirection_def isInBounds_def Let_def)
qed

declare tracePulse.simps [simp del]

definition coreOf :: "ResolutionState \<Rightarrow> PlayerId \<Rightarrow> MutableCore" where
  "coreOf st k = (case k of PlayerA \<Rightarrow> r_coreA st | PlayerB \<Rightarrow> r_coreB st)"

definition addPendingDamage :: "ResolutionState \<Rightarrow> EntityRef \<Rightarrow> ResolutionState" where
  "addPendingDamage st target =
     (case target of
        QuantarRef i \<Rightarrow>
          st\<lparr>r_quantars := (r_quantars st)[i :=
                (r_quantars st ! i)\<lparr>pendingDamage :=
                   pendingDamage (r_quantars st ! i) + PULSE_DAMAGE\<rparr>]\<rparr>
      | CoreRef PlayerA \<Rightarrow>
          st\<lparr>r_coreA := (r_coreA st)\<lparr>mc_pendingDamage :=
                mc_pendingDamage (r_coreA st) + PULSE_DAMAGE\<rparr>\<rparr>
      | CoreRef PlayerB \<Rightarrow>
          st\<lparr>r_coreB := (r_coreB st)\<lparr>mc_pendingDamage :=
                mc_pendingDamage (r_coreB st) + PULSE_DAMAGE\<rparr>\<rparr>)"

definition pulseHitEvent :: "ResolutionState \<Rightarrow> EntityRef \<Rightarrow> TurnEvent" where
  "pulseHitEvent st target =
     (case target of
        QuantarRef i \<Rightarrow> PulseHit (m_id (r_quantars st ! i)) EntityQuantar PULSE_DAMAGE
      | CoreRef k \<Rightarrow>
          PulseHit (''core_'' @ playerString (mc_owner (coreOf st k))) EntityCore PULSE_DAMAGE)"

definition hitTarget :: "ResolutionState \<Rightarrow> Position \<Rightarrow> PulseDirection \<Rightarrow> EntityRef option" where
  "hitTarget st origin dir =
     (if isDiagonalPulse dir then
        (let currentPos = applyPulseDirection origin dir in
         if isInBounds currentPos then getEntityAtPosition st currentPos else None)
      else tracePulse st origin dir)"

definition resolvePulse :: "ResolutionState \<Rightarrow> string \<times> PulseDirection \<Rightarrow> ResolutionState" where
  "resolvePulse st action =
     (case action of (i, dir) \<Rightarrow>
        (case getQuantarById st i of
           None \<Rightarrow> st
         | Some k \<Rightarrow>
             let quantar = r_quantars st ! k in
             if m_hp quantar \<le> 0 then st
             else
               let st1 = pushEvents st [PulseFired (m_id quantar) (m_position quantar) dir] in
               (case hitTarget st1 (m_position quantar) dir of
                  Some target \<Rightarrow>
                    pushEvents (addPendingDamage st1 target) [pulseHitEvent st1 target]
                | None \<Rightarrow> pushEvents st1 [PulseMiss (m_id quantar)])))"

definition resolvePulses :: "ResolutionState \<Rightarrow> Action list \<Rightarrow> ResolutionState" where
  "resolvePulses st actions = foldl resolvePulse st (pulseActions actions)"

subsection \<open>Phase 4: apply damage\<close>

definition actualDamage :: "MutableQuantar \<Rightarrow> int" where
  "actualDamage quantar =
     (if shielded quantar then max 0 (pendingDamage quantar - SHIELD_REDUCTION)
      else pendingDamage quantar)"

fun applyDamageQuantars :: "MutableQuantar list \<Rightarrow> MutableQuantar list \<times> TurnEvent list" where
  "applyDamageQuantars [] = ([], [])"
| "applyDamageQuantars (quantar # qs) =
     (let (qs', evs) = applyDamageQuantars qs in
      if pendingDamage quantar > 0 then
        (quantar\<lparr>m_hp := m_hp quantar - actualDamage quantar, pendingDamage := 0\<rparr> # qs',
         DamageApplied (m_id quantar) (actualDamage quantar)
           (m_hp quantar - actualDamage quantar) # evs)
      else (quantar # qs', evs))"

definition applyDamageCore :: "MutableCore \<Rightarrow> MutableCore \<times> TurnEvent list" where
  "applyDamageCore core =
     (if mc_pendingDamage core > 0 then
        (core\<lparr>mc_hp := mc_hp core - mc_pendingDamage core, mc_pendingDamage := 0\<rparr>,
         [DamageApplied (''core_'' @ playerString (mc_owner core)) (mc_pendingDamage core)
            (mc_hp core - mc_pendingDamage core)])
      else (core, []))"

definition applyDamage :: "ResolutionState \<Rightarrow> ResolutionState" where
  "applyDamage st =
     (let (qs, evq) = applyDamageQuantars (r_quantars st);
          (ca, eva) = applyDamageCore (r_coreA st);
          (cb, evb) = applyDamageCore (r_coreB st)
      in st\<lparr>r_quantars := qs, r_coreA := ca, r_coreB := cb,
            events := events st @ evq @ eva @ evb\<rparr>)"

subsection \<open>Phase 5: remove dead entities\<close>

definition removeDeadEntities :: "ResolutionState \<Rightarrow> ResolutionState" where
  "removeDeadEntities st =
     st\<lparr>r_quantars := filter (\<lambda>q. m_hp q > 0) (r_quantars st),
        events := events st
          @ map (\<lambda>q. EntityDestroyed (m_id q) EntityQuantar)
              (filter (\<lambda>q. m_hp q \<le> 0) (r_quantars st))
          @ map (\<lambda>core. EntityDestroyed (''core_'' @ playerString (mc_owner core)) EntityCore)
              (filter (\<lambda>core. mc_hp core \<le> 0) [r_coreA st, r_coreB st])\<rparr>"

subsection \<open>Phase 6: check win condition\<close>

record WinConditionResult =
  wc_winner :: "PlayerId option"
  terminalLoss :: "PlayerId option"
  isDraw :: bool

definition checkWinCondition :: "ResolutionState \<Rightarrow> WinConditionResult" where
  "checkWinCondition st =
     (let coreADead = mc_hp (r_coreA st) \<le> 0;
          coreBDead = mc_hp (r_coreB st) \<le> 0
      in
      if coreADead \<and> coreBDead then \<lparr>wc_winner = None, terminalLoss = None, isDraw = True\<rparr>
      else if coreADead then \<lparr>wc_winner = Some PlayerB, terminalLoss = None, isDraw = False\<rparr>
      else if coreBDead then \<lparr>wc_winner = Some PlayerA, terminalLoss = None, isDraw = False\<rparr>
      else
        let quantarsA = filter (\<lambda>q. m_owner q = PlayerA \<and> m_hp q > 0) (r_quantars st);
            quantarsB = filter (\<lambda>q. m_owner q = PlayerB \<and> m_hp q > 0) (r_quantars st)
        in
        if length quantarsA = 0 \<and> length quantarsB = 0
        then \<lparr>wc_winner = None, terminalLoss = None, isDraw = True\<rparr>
        else if length quantarsA = 0
        then \<lparr>wc_winner = Some PlayerB, terminalLoss = Some PlayerA, isDraw = False\<rparr>
        else if length quantarsB = 0
        then \<lparr>wc_winner = Some PlayerA, terminalLoss = Some PlayerB, isDraw = False\<rparr>
        else \<lparr>wc_winner = None, terminalLoss = None, isDraw = False\<rparr>)"

subsection \<open>Main resolution function\<close>

definition initialResolutionState :: "GameState \<Rightarrow> ResolutionState" where
  "initialResolutionState st =
     \<lparr>r_quantars = map toMutableQuantar (quantars st),
      r_coreA = toMutableCore (coreA st),
      r_coreB = toMutableCore (coreB st),
      events = []\<rparr>"

text \<open>The five phases run in order on the working copy, on the combined action list:
  \<open>afterPulses\<close> is the working copy after phases 1 to 3, \<open>resolvePhases\<close> after all
  five.\<close>

definition afterPulses :: "TurnInput \<Rightarrow> ResolutionState" where
  "afterPulses input =
     (let allActions = actionsA input @ actionsB input;
          st1 = resolveMoves (initialResolutionState (in_state input)) allActions;
          st2 = resolveShields st1 allActions
      in resolvePulses st2 allActions)"

definition resolvePhases :: "TurnInput \<Rightarrow> ResolutionState" where
  "resolvePhases input = removeDeadEntities (applyDamage (afterPulses input))"

definition resolveTurn :: "TurnInput \<Rightarrow> TurnResult" where
  "resolveTurn input =
     (let resolutionState = resolvePhases input;
          wc = checkWinCondition resolutionState;
          evTerminal = (case terminalLoss wc of
                          Some loser \<Rightarrow> [TerminalLoss loser ''no_quantars'']
                        | None \<Rightarrow> []);
          evOver = (case wc_winner wc of Some w \<Rightarrow> [GameOver w] | None \<Rightarrow> []);
          nextTurn = numberAdd (turn (in_state input)) 1;
          isMaxTurnsReached = (wc_winner wc = None \<and> \<not> isDraw wc \<and> nextTurn \<ge> MAX_TURNS);
          evDraw = (if isMaxTurnsReached \<or> isDraw wc
                    then [Draw (if isDraw wc then ''mutual_destruction'' else ''max_turns'')]
                    else []);
          gameEnded = (wc_winner wc \<noteq> None \<or> isDraw wc \<or> isMaxTurnsReached);
          newState =
            \<lparr>turn = nextTurn,
             phase = (if gameEnded then Ended else Playing),
             quantars = map toImmutableQuantar (r_quantars resolutionState),
             coreA = toImmutableCore (r_coreA resolutionState),
             coreB = toImmutableCore (r_coreB resolutionState),
             winner = wc_winner wc\<rparr>
      in \<lparr>state = newState,
          log = \<lparr>log_turn = turn (in_state input),
                 log_events = events resolutionState @ evTerminal @ evOver @ evDraw\<rparr>\<rparr>)"

section \<open>Action validation (actions/validate.ts)\<close>

datatype ValidationErrorCode =
  INVALID_ACTION_TYPE | INVALID_DIRECTION | QUANTAR_NOT_FOUND | QUANTAR_NOT_OWNED
  | QUANTAR_DEAD | MOVE_OUT_OF_BOUNDS | DUPLICATE_QUANTAR_ACTION | MISSING_QUANTAR_ACTION
  | GAME_NOT_IN_ACTION_PHASE

text \<open>\<open>{ valid: true }\<close>, or \<open>{ valid: false, error, code }\<close> with the message and the
  code.\<close>

datatype ValidationResult = Valid | Invalid string ValidationErrorCode

fun directionString :: "Direction \<Rightarrow> string" where
  "directionString North = ''N''"
| "directionString East = ''E''"
| "directionString South = ''S''"
| "directionString West = ''W''"

fun pulseDirectionString :: "PulseDirection \<Rightarrow> string" where
  "pulseDirectionString PulseNorth = ''N''"
| "pulseDirectionString PulseEast = ''E''"
| "pulseDirectionString PulseSouth = ''S''"
| "pulseDirectionString PulseWest = ''W''"
| "pulseDirectionString NorthEast = ''NE''"
| "pulseDirectionString NorthWest = ''NW''"
| "pulseDirectionString SouthEast = ''SE''"
| "pulseDirectionString SouthWest = ''SW''"

text \<open>
  The first check of the source (the action is an object with a \<open>type\<close>) and the
  \<open>default\<close> branch of its \<open>switch\<close> cannot be taken by a value of type \<open>Action\<close>;
  the three branches of the \<open>switch\<close> are the three constructors.
\<close>

definition validateAction :: "GameState \<Rightarrow> Action \<Rightarrow> PlayerId \<Rightarrow> ValidationResult" where
  "validateAction st action playerId =
     (case getQuantar st (quantarId action) of
        None \<Rightarrow> Invalid (''Quantar '' @ quantarId action @ '' not found'') QUANTAR_NOT_FOUND
      | Some quantar \<Rightarrow>
          if q_owner quantar \<noteq> playerId then
            Invalid (''Quantar '' @ quantarId action @ '' is not owned by player ''
                       @ playerString playerId) QUANTAR_NOT_OWNED
          else if q_hp quantar \<le> 0 then
            Invalid (''Quantar '' @ quantarId action @ '' is dead'') QUANTAR_DEAD
          else
            (case action of
               MoveAction _ dir \<Rightarrow>
                 if \<not> isValidDirection dir then
                   Invalid (''Invalid direction: '' @ directionString dir) INVALID_DIRECTION
                 else if \<not> isInBounds (applyDirection (q_position quantar) dir) then
                   Invalid ''Move would go out of bounds'' MOVE_OUT_OF_BOUNDS
                 else Valid
             | PulseAction _ dir \<Rightarrow>
                 if \<not> isValidPulseDirection dir then
                   Invalid (''Invalid pulse direction: '' @ pulseDirectionString dir)
                     INVALID_DIRECTION
                 else Valid
             | ShieldAction _ \<Rightarrow> Valid))"

text \<open>The loop over the submitted actions, with the set \<open>actionQuantarIds\<close> of ids seen
  so far: it returns the first failure, or the final set.\<close>

fun validateEach :: "GameState \<Rightarrow> PlayerId \<Rightarrow> string set \<Rightarrow> Action list
    \<Rightarrow> ValidationResult + string set" where
  "validateEach st playerId actionQuantarIds [] = Inr actionQuantarIds"
| "validateEach st playerId actionQuantarIds (action # rest) =
     (if quantarId action \<in> actionQuantarIds then
        Inl (Invalid (''Duplicate action for Quantar '' @ quantarId action)
               DUPLICATE_QUANTAR_ACTION)
      else
        case validateAction st action playerId of
          Invalid e c \<Rightarrow> Inl (Invalid e c)
        | Valid \<Rightarrow> validateEach st playerId (insert (quantarId action) actionQuantarIds) rest)"

definition validatePlayerActions :: "GameState \<Rightarrow> Action list \<Rightarrow> PlayerId \<Rightarrow> ValidationResult" where
  "validatePlayerActions st actions playerId =
     (if phase st \<noteq> Playing then
        Invalid ''Game is not in playing phase'' GAME_NOT_IN_ACTION_PHASE
      else
        let playerQuantars = getPlayerQuantars st playerId;
            aliveQuantars = filter (\<lambda>q. q_hp q > 0) playerQuantars
        in
        case validateEach st playerId {} actions of
          Inl failure \<Rightarrow> failure
        | Inr actionQuantarIds \<Rightarrow>
            (case List.find (\<lambda>q. q_id q \<notin> actionQuantarIds) aliveQuantars of
               Some quantar \<Rightarrow>
                 Invalid (''Missing action for Quantar '' @ q_id quantar) MISSING_QUANTAR_ACTION
             | None \<Rightarrow> Valid))"

section \<open>State hashing (hash/canonical.ts)\<close>

definition serializeQuantar :: "Quantar \<Rightarrow> string" where
  "serializeQuantar q =
     ''Q:'' @ q_id q @ '':'' @ playerString (q_owner q) @ '':''
       @ numberToString (pos_x (q_position q)) @ '','' @ numberToString (pos_y (q_position q))
       @ '':'' @ numberToString (q_hp q)"

definition serializeCore :: "Core \<Rightarrow> string" where
  "serializeCore c =
     ''C:'' @ playerString (c_owner c) @ '':''
       @ numberToString (pos_x (c_position c)) @ '','' @ numberToString (pos_y (c_position c))
       @ '':'' @ numberToString (c_hp c)"

fun phaseString :: "GamePhase \<Rightarrow> string" where
  "phaseString Playing = ''playing''"
| "phaseString Ended = ''ended''"

text \<open>\<open>Array.prototype.sort\<close> with a comparator is a stable sort: an element goes before
  another when the comparator is negative, and equal elements keep their order.
  \<open>String.prototype.localeCompare\<close> belongs to the platform and depends on the locale;
  it is a parameter of the model.\<close>

fun insertBy :: "('a \<Rightarrow> 'a \<Rightarrow> int) \<Rightarrow> 'a \<Rightarrow> 'a list \<Rightarrow> 'a list" where
  "insertBy cmp v [] = [v]"
| "insertBy cmp v (w # ws) = (if cmp v w \<le> 0 then v # w # ws else w # insertBy cmp v ws)"

fun sortBy :: "('a \<Rightarrow> 'a \<Rightarrow> int) \<Rightarrow> 'a list \<Rightarrow> 'a list" where
  "sortBy cmp [] = []"
| "sortBy cmp (v # vs) = insertBy cmp v (sortBy cmp vs)"

fun joinStrings :: "string \<Rightarrow> string list \<Rightarrow> string" where
  "joinStrings sep [] = []"
| "joinStrings sep [p] = p"
| "joinStrings sep (p # ps) = p @ sep @ joinStrings sep ps"

definition canonicalizeState :: "(string \<Rightarrow> string \<Rightarrow> int) \<Rightarrow> GameState \<Rightarrow> string" where
  "canonicalizeState localeCompare st =
     (let sortedQuantars = sortBy (\<lambda>a b. localeCompare (q_id a) (q_id b)) (quantars st)
      in joinStrings ''|''
           ([''T:'' @ numberToString (turn st),
             ''P:'' @ phaseString (phase st),
             ''W:'' @ (case winner st of Some w \<Rightarrow> playerString w | None \<Rightarrow> ''null''),
             serializeCore (coreA st),
             serializeCore (coreB st)]
            @ map serializeQuantar sortedQuantars))"

text \<open>
  \<open>djb2Hash\<close>: in the source \<open>hash << 5\<close> and \<open>^\<close> work on the 32-bit two's complement
  value of their operands and the sum between them is exact, so each round computes
  \<open>(hash * 32 + hash) XOR code\<close> modulo \<open>2^32\<close>: arithmetic on \<open>32 word\<close>. The final
  \<open>hash >>> 0\<close> reads the word as an unsigned number. A character of a \<open>string\<close>
  stands for its code unit.
\<close>

definition djb2Hash :: "string \<Rightarrow> nat" where
  "djb2Hash str =
     unat (foldl (\<lambda>(hash :: 32 word) c. (push_bit 5 hash + hash) XOR of_nat (of_char c))
             5381 str)"

definition padStart :: "nat \<Rightarrow> char \<Rightarrow> string \<Rightarrow> string" where
  "padStart n c str = replicate (n - length str) c @ str"

definition hashToHex :: "string \<Rightarrow> string" where
  "hashToHex str = padStart 8 (CHR ''0'') (natToString 16 (djb2Hash str))"

definition hashState :: "(string \<Rightarrow> string \<Rightarrow> int) \<Rightarrow> GameState \<Rightarrow> string" where
  "hashState localeCompare st = hashToHex (canonicalizeState localeCompare st)"

section \<open>Scenarios and auxiliary notions\<close>

text \<open>A two-Quantar position used to exercise the pipeline: \<open>A1\<close> at (4,5) and \<open>B1\<close>
  at (4,3) face each other on the centre column, between the two Cores, with the given
  Quantar and Core hit points. \<open>duelTurn\<close> resolves one turn of it with one action per
  side.\<close>

definition duel :: "int \<Rightarrow> int \<Rightarrow> GameState" where
  "duel qhp chp =
     \<lparr>turn = 10, phase = Playing,
      quantars =
        [\<lparr>q_id = ''A1'', q_owner = PlayerA, q_position = \<lparr>pos_x = 4, pos_y = 5\<rparr>, q_hp = qhp\<rparr>,
         \<lparr>q_id = ''B1'', q_owner = PlayerB, q_position = \<lparr>pos_x = 4, pos_y = 3\<rparr>, q_hp = qhp\<rparr>],
      coreA = \<lparr>c_owner = PlayerA, c_position = \<lparr>pos_x = 4, pos_y = 8\<rparr>, c_hp = chp\<rparr>,
      coreB = \<lparr>c_owner = PlayerB, c_position = \<lparr>pos_x = 4, pos_y = 0\<rparr>, c_hp = chp\<rparr>,
      winner = None\<rparr>"

definition duelTurn :: "int \<Rightarrow> int \<Rightarrow> Action \<Rightarrow> Action \<Rightarrow> TurnResult" where
  "duelTurn qhp chp a b = resolveTurn \<lparr>in_state = duel qhp chp, actionsA = [a], actionsB = [b]\<rparr>"

text \<open>The events the five phases can emit: every kind but the three outcome events,
  which only \<open>resolveTurn\<close> itself appends.\<close>

definition phaseEvent :: "TurnEvent \<Rightarrow> bool" where
  "phaseEvent e = (case e of TerminalLoss _ _ \<Rightarrow> False | GameOver _ \<Rightarrow> False | Draw _ \<Rightarrow> False
                   | _ \<Rightarrow> True)"

text \<open>Positions taken from the test suite: the initial position at a given turn number
  with every Quantar shielding; the initial position in which \<open>A2\<close> fires north at the
  shielding \<open>B2\<close>. And a position in which two Quantars of player \<open>B\<close> stand next
  to Core \<open>A\<close>, which has one hit point left, and both fire at it.\<close>

definition allShield :: "PlayerId \<Rightarrow> Action list" where
  "allShield p = map (\<lambda>n. ShieldAction (playerString p @ n)) [''1'', ''2'', ''3'']"

definition atTurn :: "int \<Rightarrow> TurnInput" where
  "atTurn n = \<lparr>in_state = createInitialState\<lparr>turn := n\<rparr>,
               actionsA = allShield PlayerA, actionsB = allShield PlayerB\<rparr>"

definition siege :: GameState where
  "siege =
     \<lparr>turn = 12, phase = Playing,
      quantars =
        [\<lparr>q_id = ''A1'', q_owner = PlayerA, q_position = \<lparr>pos_x = 3, pos_y = 6\<rparr>, q_hp = 2\<rparr>,
         \<lparr>q_id = ''B1'', q_owner = PlayerB, q_position = \<lparr>pos_x = 4, pos_y = 7\<rparr>, q_hp = 2\<rparr>,
         \<lparr>q_id = ''B2'', q_owner = PlayerB, q_position = \<lparr>pos_x = 3, pos_y = 8\<rparr>, q_hp = 2\<rparr>],
      coreA = \<lparr>c_owner = PlayerA, c_position = \<lparr>pos_x = 4, pos_y = 8\<rparr>, c_hp = 1\<rparr>,
      coreB = \<lparr>c_owner = PlayerB, c_position = \<lparr>pos_x = 4, pos_y = 0\<rparr>, c_hp = 5\<rparr>,
      winner = None\<rparr>"

definition siegeInput :: TurnInput where
  "siegeInput = \<lparr>in_state = siege, actionsA = [ShieldAction ''A1''],
                 actionsB = [PulseAction ''B1'' PulseSouth, PulseAction ''B2'' PulseEast]\<rparr>"


text \<open>Reading a hexadecimal numeral back: the value of a digit is its place among the
  sixteen digit characters.\<close>

definition hexDigitValue :: "char \<Rightarrow> nat" where
  "hexDigitValue c = (case findIndex (\<lambda>d. d = c) ''0123456789abcdef'' of Some i \<Rightarrow> i | None \<Rightarrow> 0)"

definition hexValue :: "string \<Rightarrow> nat" where
  "hexValue str = foldl (\<lambda>acc c. 16 * acc + hexDigitValue c) 0 str"

text \<open>
  Notions for the pulse phase. \<open>ray origin dir k\<close> is the cell \<open>k\<close> steps from
  \<open>origin\<close> in direction \<open>dir\<close>. For a Pulse action \<open>a = (id, dir)\<close> read in a
  state \<open>st\<close>: \<open>firing st a\<close> is the Quantar that fires, if the id names a live one;
  \<open>pulseTarget st a\<close> is what its beam hits, if anything; \<open>pulseEvents st a\<close> are the
  events of the action (PulseFired, then PulseHit or PulseMiss). \<open>board st\<close> is what
  beams depend on: id, position and hit points of every Quantar, owner and position of
  both Cores. \<open>beforePulses\<close> is the working copy after phases 1 and 2.
\<close>

definition ray :: "Position \<Rightarrow> PulseDirection \<Rightarrow> nat \<Rightarrow> Position" where
  "ray origin dir k =
     \<lparr>pos_x = pos_x origin + int k * pos_x (PULSE_DIRECTION_DELTAS dir),
      pos_y = pos_y origin + int k * pos_y (PULSE_DIRECTION_DELTAS dir)\<rparr>"

definition firing :: "ResolutionState \<Rightarrow> string \<times> PulseDirection \<Rightarrow> nat option" where
  "firing st a =
     (case getQuantarById st (fst a) of
        None \<Rightarrow> None
      | Some i \<Rightarrow> if m_hp (r_quantars st ! i) > 0 then Some i else None)"

definition pulseTarget :: "ResolutionState \<Rightarrow> string \<times> PulseDirection \<Rightarrow> EntityRef option" where
  "pulseTarget st a =
     (case firing st a of
        None \<Rightarrow> None
      | Some i \<Rightarrow> hitTarget st (m_position (r_quantars st ! i)) (snd a))"

definition pulseEvents :: "ResolutionState \<Rightarrow> string \<times> PulseDirection \<Rightarrow> TurnEvent list" where
  "pulseEvents st a =
     (case firing st a of
        None \<Rightarrow> []
      | Some i \<Rightarrow>
          [PulseFired (m_id (r_quantars st ! i)) (m_position (r_quantars st ! i)) (snd a),
           case pulseTarget st a of
             None \<Rightarrow> PulseMiss (m_id (r_quantars st ! i))
           | Some (QuantarRef t) \<Rightarrow> PulseHit (m_id (r_quantars st ! t)) EntityQuantar 1
           | Some (CoreRef c) \<Rightarrow>
               PulseHit (''core_'' @ playerString (mc_owner (coreOf st c))) EntityCore 1])"

definition board :: "ResolutionState
    \<Rightarrow> (string \<times> Position \<times> int) list \<times> (PlayerId \<times> Position) \<times> (PlayerId \<times> Position)" where
  "board st =
     (map (\<lambda>q. (m_id q, m_position q, m_hp q)) (r_quantars st),
      (mc_owner (r_coreA st), mc_position (r_coreA st)),
      (mc_owner (r_coreB st), mc_position (r_coreB st)))"

definition beforePulses :: "TurnInput \<Rightarrow> ResolutionState" where
  "beforePulses input =
     resolveShields
       (resolveMoves (initialResolutionState (in_state input)) (actionsA input @ actionsB input))
       (actionsA input @ actionsB input)"

text \<open>More positions. From the test suite: \<open>B2\<close> steps south into the beam that
  \<open>A2\<close> fires north; and \<open>B2\<close> steps east onto the cell that \<open>B3\<close> leaves
  eastwards in the same turn. Last, the initial position after \<open>B2\<close> has walked two
  cells south: \<open>A2\<close> and \<open>B2\<close> both step onto (4,5) while \<open>A1\<close> steps onto the
  cell of \<open>A2\<close>. \<open>meleeInput\<close> is the siege position with \<open>A1\<close> firing diagonally
  at \<open>B1\<close>, which stands next to it; in \<open>wreckInput\<close> a dead \<open>B1\<close> lies on
  (4,7), between \<open>A1\<close>, which fires south, and Core \<open>A\<close>.\<close>

definition movedIntoBeamInput :: TurnInput where
  "movedIntoBeamInput =
     \<lparr>in_state = createInitialState,
      actionsA = [ShieldAction ''A1'', PulseAction ''A2'' PulseNorth, ShieldAction ''A3''],
      actionsB = [ShieldAction ''B1'', MoveAction ''B2'' South, ShieldAction ''B3'']\<rparr>"

definition followInput :: TurnInput where
  "followInput =
     \<lparr>in_state = createInitialState,
      actionsA = [PulseAction ''A1'' PulseNorth, PulseAction ''A2'' PulseNorth,
                  PulseAction ''A3'' PulseNorth],
      actionsB = [MoveAction ''B1'' West, MoveAction ''B2'' East, MoveAction ''B3'' East]\<rparr>"

definition meleeInput :: TurnInput where
  "meleeInput = \<lparr>in_state = siege, actionsA = [PulseAction ''A1'' SouthEast],
                 actionsB = [ShieldAction ''B1'', ShieldAction ''B2'']\<rparr>"

definition wreckInput :: TurnInput where
  "wreckInput =
     \<lparr>in_state = siege\<lparr>quantars :=
        [\<lparr>q_id = ''A1'', q_owner = PlayerA, q_position = \<lparr>pos_x = 4, pos_y = 6\<rparr>, q_hp = 2\<rparr>,
         \<lparr>q_id = ''B1'', q_owner = PlayerB, q_position = \<lparr>pos_x = 4, pos_y = 7\<rparr>, q_hp = 0\<rparr>,
         \<lparr>q_id = ''B2'', q_owner = PlayerB, q_position = \<lparr>pos_x = 3, pos_y = 8\<rparr>, q_hp = 2\<rparr>]\<rparr>,
      actionsA = [PulseAction ''A1'' PulseSouth], actionsB = [ShieldAction ''B2'']\<rparr>"

definition crowded :: GameState where
  "crowded =
     \<lparr>turn = 3, phase = Playing,
      quantars =
        [\<lparr>q_id = ''A1'', q_owner = PlayerA, q_position = \<lparr>pos_x = 3, pos_y = 6\<rparr>, q_hp = 2\<rparr>,
         \<lparr>q_id = ''A2'', q_owner = PlayerA, q_position = \<lparr>pos_x = 4, pos_y = 6\<rparr>, q_hp = 2\<rparr>,
         \<lparr>q_id = ''A3'', q_owner = PlayerA, q_position = \<lparr>pos_x = 5, pos_y = 6\<rparr>, q_hp = 2\<rparr>,
         \<lparr>q_id = ''B1'', q_owner = PlayerB, q_position = \<lparr>pos_x = 3, pos_y = 2\<rparr>, q_hp = 2\<rparr>,
         \<lparr>q_id = ''B2'', q_owner = PlayerB, q_position = \<lparr>pos_x = 4, pos_y = 4\<rparr>, q_hp = 2\<rparr>,
         \<lparr>q_id = ''B3'', q_owner = PlayerB, q_position = \<lparr>pos_x = 5, pos_y = 2\<rparr>, q_hp = 2\<rparr>],
      coreA = \<lparr>c_owner = PlayerA, c_position = \<lparr>pos_x = 4, pos_y = 8\<rparr>, c_hp = 5\<rparr>,
      coreB = \<lparr>c_owner = PlayerB, c_position = \<lparr>pos_x = 4, pos_y = 0\<rparr>, c_hp = 5\<rparr>,
      winner = None\<rparr>"

definition crowdedInput :: TurnInput where
  "crowdedInput =
     \<lparr>in_state = crowded,
      actionsA = [MoveAction ''A1'' East, MoveAction ''A2'' North, ShieldAction ''A3''],
      actionsB = [ShieldAction ''B1'', MoveAction ''B2'' South, ShieldAction ''B3'']\<rparr>"

section \<open>Properties of the pipeline\<close>

subsection \<open>Addition of numbers\<close>

lemma roundToDouble_exact: "\<bar>n\<bar> \<le> 2 ^ 53 \<Longrightarrow> roundToDouble n = n"
  by (simp add: roundToDouble_def)

lemma bitLength_lower: "0 < n \<Longrightarrow> 2 ^ bitLength n \<le> 2 * n"
proof (induction n rule: less_induct)
  case (less n)
  show ?case
  proof (cases "n div 2 = 0")
    case True
    then have "n = 1" using less.prems by (simp add: div_eq_0_iff)
    then show ?thesis
      by (simp add: bitLength.simps [of "Suc 0"] bitLength.simps [of 0])
  next
    case False
    then have "2 ^ bitLength (n div 2) \<le> 2 * (n div 2)"
      using less.IH [of "n div 2"] less.prems by simp
    also have "\<dots> \<le> n" by simp
    finally show ?thesis
      using less.prems by (simp add: bitLength.simps [of n])
  qed
qed

lemma roundToDouble_large:
  assumes "2 ^ 53 < n"
  shows "2 ^ 52 \<le> roundToDouble n"
proof -
  define s where "s = bitLength (nat \<bar>n\<bar>) - 53"
  define q where "q = \<bar>n\<bar> div 2 ^ s"
  define r where "r = \<bar>n\<bar> mod 2 ^ s"
  define q' where "q' = (if 2 * r > 2 ^ s \<or> (2 * r = 2 ^ s \<and> odd q) then q + 1 else q)"
  have n: "\<bar>n\<bar> = n" "sgn n = 1" "0 < n"
    using assms by (simp_all add: less_trans [of 0 "2 ^ 53" n])
  have bound: "(2::int) ^ 52 * 2 ^ s \<le> n"
  proof (cases "bitLength (nat n) \<le> 53")
    case True
    then have "s = 0" using n by (simp add: s_def)
    then show ?thesis using assms by simp
  next
    case False
    then have "s + 53 = bitLength (nat n)" using n by (simp add: s_def)
    moreover have "(2::nat) ^ bitLength (nat n) \<le> 2 * nat n"
      using n(3) by (intro bitLength_lower) simp
    ultimately have "(2::nat) ^ (s + 53) \<le> 2 * nat n"
      by simp
    then have "int ((2::nat) ^ (s + 53)) \<le> int (2 * nat n)"
      by (simp only: of_nat_le_iff)
    then have "(2::int) ^ (s + 53) \<le> 2 * n"
      using n(3) by simp
    then show ?thesis
      by (simp add: power_add)
  qed
  have "(2::int) ^ 52 = (2 ^ 52 * 2 ^ s) div 2 ^ s"
    by simp
  also have "\<dots> \<le> n div 2 ^ s"
    using bound by (intro zdiv_mono1) simp_all
  finally have q: "2 ^ 52 \<le> q"
    using n by (simp add: q_def)
  then have "2 ^ 52 \<le> q'"
    by (simp add: q'_def)
  moreover have "q' * 1 \<le> q' * 2 ^ s"
    using \<open>2 ^ 52 \<le> q'\<close> by (intro mult_left_mono) simp_all
  ultimately have "2 ^ 52 \<le> q' * 2 ^ s"
    by linarith
  moreover have "roundToDouble n = q' * 2 ^ s"
    using assms n by (simp add: roundToDouble_def Let_def s_def q_def r_def q'_def)
  ultimately show ?thesis by simp
qed

lemma roundToDouble_small:
  assumes "n < - (2 ^ 53)"
  shows "roundToDouble n \<le> 0"
proof -
  define s where "s = bitLength (nat \<bar>n\<bar>) - 53"
  define q where "q = \<bar>n\<bar> div 2 ^ s"
  define r where "r = \<bar>n\<bar> mod 2 ^ s"
  define q' where "q' = (if 2 * r > 2 ^ s \<or> (2 * r = 2 ^ s \<and> odd q) then q + 1 else q)"
  have "0 \<le> q"
    by (simp add: q_def pos_imp_zdiv_nonneg_iff)
  then have "0 \<le> q' * 2 ^ s"
    by (simp add: q'_def)
  moreover have "roundToDouble n = - (q' * 2 ^ s)"
    using assms by (simp add: roundToDouble_def Let_def s_def q_def r_def q'_def)
  ultimately show ?thesis by simp
qed

lemma numberAdd_reaches_MAX_TURNS:
  "MAX_TURNS \<le> numberAdd t 1 \<longleftrightarrow> MAX_TURNS \<le> t + 1"
proof -
  consider "\<bar>t + 1\<bar> \<le> 2 ^ 53" | "2 ^ 53 < t + 1" | "t + 1 < - (2 ^ 53)"
    by linarith
  then show ?thesis
  proof cases
    case 1
    then show ?thesis by (simp add: numberAdd_def roundToDouble_exact)
  next
    case 2
    then show ?thesis
      using roundToDouble_large [OF 2] by (simp add: numberAdd_def MAX_TURNS_def)
  next
    case 3
    then show ?thesis
      using roundToDouble_small [OF 3] by (simp add: numberAdd_def MAX_TURNS_def)
  qed
qed

lemma numberAdd_at_limit: "numberAdd 9007199254740992 1 = 9007199254740992"
proof -
  have "bitLength 9007199254740993 = 54"
    by (simp add: bitLength.simps)
  then show ?thesis
    by (simp add: numberAdd_def roundToDouble_def Let_def)
qed

subsection \<open>Events and survivors of the five phases\<close>

lemma events_pushEvents [simp]: "events (pushEvents st evs) = events st @ evs"
  by (simp add: pushEvents_def)

lemma r_quantars_pushEvents [simp]: "r_quantars (pushEvents st evs) = r_quantars st"
  by (simp add: pushEvents_def)

lemma r_coreA_pushEvents [simp]: "r_coreA (pushEvents st evs) = r_coreA st"
  by (simp add: pushEvents_def)

lemma r_coreB_pushEvents [simp]: "r_coreB (pushEvents st evs) = r_coreB st"
  by (simp add: pushEvents_def)

lemma intendedMoves_phaseEvent:
  "e \<in> set (snd (intendedMoves st acts)) \<Longrightarrow> phaseEvent e"
  by (induction acts) (auto simp: Let_def phaseEvent_def split: prod.splits option.splits if_splits)

lemma applyMoves_phaseEvent:
  "list_all phaseEvent (events st) \<Longrightarrow> list_all phaseEvent (events (applyMoves st ms))"
  by (induction ms arbitrary: st) (simp_all add: phaseEvent_def)

lemma resolveMoves_phaseEvent:
  assumes "list_all phaseEvent (events st)"
  shows "list_all phaseEvent (events (resolveMoves st actions))"
proof -
  obtain ims oob where im: "intendedMoves st (moveActions actions) = (ims, oob)"
    by (cases "intendedMoves st (moveActions actions)")
  have "list_all phaseEvent oob"
    using intendedMoves_phaseEvent [of _ st "moveActions actions"] im
    by (simp add: list_all_iff)
  moreover have "list_all phaseEvent (coreBlockedEvents st ims)"
    by (simp add: coreBlockedEvents_def moveBlockedEvent_def phaseEvent_def list_all_iff)
  moreover have "list_all phaseEvent (collisionEvents st (validMoves st ims))"
    by (auto simp: collisionEvents_def moveBlockedEvent_def phaseEvent_def list_all_iff
        split: option.splits)
  ultimately show ?thesis
    using assms im by (simp add: resolveMoves_def Let_def applyMoves_phaseEvent)
qed

lemma resolveShield_phaseEvent:
  "list_all phaseEvent (events st) \<Longrightarrow> list_all phaseEvent (events (resolveShield st i))"
  by (simp add: resolveShield_def Let_def phaseEvent_def split: option.splits)

lemma foldl_preserves:
  assumes "\<And>s a. P s \<Longrightarrow> P (f s a)" and "P s0"
  shows "P (foldl f s0 xs)"
  using assms(2) by (induction xs arbitrary: s0) (simp_all add: assms(1))

lemma resolveShields_phaseEvent:
  "list_all phaseEvent (events st) \<Longrightarrow> list_all phaseEvent (events (resolveShields st actions))"
  unfolding resolveShields_def
  by (rule foldl_preserves) (simp_all add: resolveShield_phaseEvent)

lemma events_addPendingDamage [simp]: "events (addPendingDamage st target) = events st"
  by (simp add: addPendingDamage_def split: EntityRef.splits PlayerId.splits)

lemma resolvePulse_phaseEvent:
  "list_all phaseEvent (events st) \<Longrightarrow> list_all phaseEvent (events (resolvePulse st a))"
  by (simp add: resolvePulse_def Let_def phaseEvent_def pulseHitEvent_def
      split: option.splits prod.splits EntityRef.splits)

lemma resolvePulses_phaseEvent:
  "list_all phaseEvent (events st) \<Longrightarrow> list_all phaseEvent (events (resolvePulses st actions))"
  unfolding resolvePulses_def
  by (rule foldl_preserves) (simp_all add: resolvePulse_phaseEvent)

lemma applyDamageQuantars_phaseEvent:
  "list_all phaseEvent (snd (applyDamageQuantars qs))"
  by (induction qs) (auto simp: Let_def phaseEvent_def split: prod.splits)

lemma applyDamage_phaseEvent:
  "list_all phaseEvent (events st) \<Longrightarrow> list_all phaseEvent (events (applyDamage st))"
  using applyDamageQuantars_phaseEvent [of "r_quantars st"]
  by (auto simp: applyDamage_def applyDamageCore_def Let_def phaseEvent_def split: prod.splits)

lemma removeDeadEntities_phaseEvent:
  "list_all phaseEvent (events st) \<Longrightarrow> list_all phaseEvent (events (removeDeadEntities st))"
  by (auto simp: removeDeadEntities_def phaseEvent_def list_all_iff)

lemma resolvePhases_phaseEvent: "list_all phaseEvent (events (resolvePhases input))"
  unfolding resolvePhases_def afterPulses_def Let_def
  by (intro removeDeadEntities_phaseEvent applyDamage_phaseEvent resolvePulses_phaseEvent
      resolveShields_phaseEvent resolveMoves_phaseEvent)
     (simp add: initialResolutionState_def)

lemma resolvePhases_alive:
  "q \<in> set (r_quantars (resolvePhases input)) \<Longrightarrow> m_hp q > 0"
  by (simp add: resolvePhases_def removeDeadEntities_def)

lemma no_outcome_in_phases:
  "TerminalLoss l r \<notin> set (events (resolvePhases input))"
  "GameOver w \<notin> set (events (resolvePhases input))"
  "Draw r \<notin> set (events (resolvePhases input))"
  using resolvePhases_phaseEvent [of input]
  by (auto simp: list_all_iff phaseEvent_def)

lemma resolveTurn_winner:
  "winner (state (resolveTurn input)) = wc_winner (checkWinCondition (resolvePhases input))"
  by (simp add: resolveTurn_def Let_def)

lemma resolveTurn_events:
  "log_events (log (resolveTurn input)) =
     events (resolvePhases input)
     @ (case terminalLoss (checkWinCondition (resolvePhases input)) of
          Some loser \<Rightarrow> [TerminalLoss loser ''no_quantars''] | None \<Rightarrow> [])
     @ (case wc_winner (checkWinCondition (resolvePhases input)) of
          Some w \<Rightarrow> [GameOver w] | None \<Rightarrow> [])
     @ (if (wc_winner (checkWinCondition (resolvePhases input)) = None
            \<and> \<not> isDraw (checkWinCondition (resolvePhases input))
            \<and> turn (in_state input) + 1 \<ge> MAX_TURNS)
           \<or> isDraw (checkWinCondition (resolvePhases input))
        then [Draw (if isDraw (checkWinCondition (resolvePhases input))
                    then ''mutual_destruction'' else ''max_turns'')]
        else [])"
  by (simp add: resolveTurn_def Let_def numberAdd_reaches_MAX_TURNS)

lemma resolveTurn_phase:
  "phase (state (resolveTurn input)) =
     (if wc_winner (checkWinCondition (resolvePhases input)) \<noteq> None
         \<or> isDraw (checkWinCondition (resolvePhases input))
         \<or> (wc_winner (checkWinCondition (resolvePhases input)) = None
            \<and> \<not> isDraw (checkWinCondition (resolvePhases input))
            \<and> turn (in_state input) + 1 \<ge> MAX_TURNS)
      then Ended else Playing)"
  by (simp add: resolveTurn_def Let_def numberAdd_reaches_MAX_TURNS)

lemma resolveTurn_cores:
  "c_hp (coreA (state (resolveTurn input))) = mc_hp (r_coreA (resolvePhases input))"
  "c_hp (coreB (state (resolveTurn input))) = mc_hp (r_coreB (resolvePhases input))"
  by (simp_all add: resolveTurn_def Let_def toImmutableCore_def)

lemma resolveTurn_quantars:
  "quantars (state (resolveTurn input)) = map toImmutableQuantar (r_quantars (resolvePhases input))"
  by (simp add: resolveTurn_def Let_def)

lemma survivors_filter:
  "(filter (\<lambda>q. q_owner q = p) (quantars (state (resolveTurn input))) = []) =
   (length (filter (\<lambda>q. m_owner q = p \<and> m_hp q > 0) (r_quantars (resolvePhases input))) = 0)"
  using resolvePhases_alive [of _ input]
  by (auto simp: resolveTurn_quantars filter_empty_conv toImmutableQuantar_def)

subsection \<open>What the phases leave unchanged, and what damage does\<close>

lemma applyMoves_cores [simp]:
  "r_coreA (applyMoves st ms) = r_coreA st" "r_coreB (applyMoves st ms) = r_coreB st"
  by (induction ms arbitrary: st) simp_all

lemma resolveMoves_cores [simp]:
  "r_coreA (resolveMoves st actions) = r_coreA st" "r_coreB (resolveMoves st actions) = r_coreB st"
  by (simp_all add: resolveMoves_def Let_def split: prod.splits)

lemma resolveShield_cores [simp]:
  "r_coreA (resolveShield st i) = r_coreA st" "r_coreB (resolveShield st i) = r_coreB st"
  by (simp_all add: resolveShield_def Let_def split: option.splits)

lemma foldl_unchanged:
  assumes "\<And>s a. g (f s a) = g s"
  shows "g (foldl f s0 xs) = g s0"
  by (induction xs arbitrary: s0) (simp_all add: assms)

lemma resolveShields_cores [simp]:
  "r_coreA (resolveShields st actions) = r_coreA st"
  "r_coreB (resolveShields st actions) = r_coreB st"
  unfolding resolveShields_def
  by (rule foldl_unchanged, simp)+

lemma addPendingDamage_core_hp [simp]:
  "mc_hp (r_coreA (addPendingDamage st target)) = mc_hp (r_coreA st)"
  "mc_hp (r_coreB (addPendingDamage st target)) = mc_hp (r_coreB st)"
  by (simp_all add: addPendingDamage_def split: EntityRef.splits PlayerId.splits)


lemma resolvePulse_core_hp [simp]:
  "mc_hp (r_coreA (resolvePulse st a)) = mc_hp (r_coreA st)"
  "mc_hp (r_coreB (resolvePulse st a)) = mc_hp (r_coreB st)"
  by (simp_all add: resolvePulse_def Let_def split: option.splits prod.splits)


lemma resolvePulses_core_hp [simp]:
  "mc_hp (r_coreA (resolvePulses st actions)) = mc_hp (r_coreA st)"
  "mc_hp (r_coreB (resolvePulses st actions)) = mc_hp (r_coreB st)"
  unfolding resolvePulses_def
  by (rule foldl_unchanged, simp)+




lemma removeDeadEntities_cores [simp]:
  "r_coreA (removeDeadEntities st) = r_coreA st" "r_coreB (removeDeadEntities st) = r_coreB st"
  by (simp_all add: removeDeadEntities_def)





subsection \<open>Turn counter\<close>

text \<open>
  Claim C9 says that for every input the returned state has the turn number of the input
  state plus one. The turn number is a \<open>number\<close> and \<open>state.turn + 1\<close> is a sum of
  doubles: from the input turn \<open>2^53 = 9007199254740992\<close> the sum rounds back to
  \<open>2^53\<close>, and the returned state has the turn number of the input state.
\<close>

theorem turn_not_incremented_counterexample:
  "turn (in_state (atTurn 9007199254740992)) = 9007199254740992
   \<and> turn (state (resolveTurn (atTurn 9007199254740992))) = 9007199254740992
   \<and> turn (state (resolveTurn (atTurn 9007199254740992)))
       \<noteq> turn (in_state (atTurn 9007199254740992)) + 1"
  by (simp add: resolveTurn_def Let_def atTurn_def numberAdd_at_limit)

text \<open>
  Claim C9, amended. For every input, whatever the outcome (win, draw or neither), the
  log carries the turn number of the input state, and the returned state carries the sum
  of that turn number and 1 as the platform computes it; for every input whose turn
  number is an integer from \<open>-2^53\<close> to \<open>2^53 - 1\<close>, which covers every turn number
  a game reaches, this is exactly the input turn number plus one.
\<close>

theorem resolveTurn_increments_turn:
  "log_turn (log (resolveTurn input)) = turn (in_state input)
   \<and> turn (state (resolveTurn input)) = numberAdd (turn (in_state input)) 1
   \<and> (- (2 ^ 53) \<le> turn (in_state input) \<and> turn (in_state input) < 2 ^ 53 \<longrightarrow>
        turn (state (resolveTurn input)) = turn (in_state input) + 1)"
  by (simp add: resolveTurn_def Let_def numberAdd_def roundToDouble_exact abs_le_iff)

theorem resolveTurn_increments_turn_witness:
  "- (2 ^ 53) \<le> turn (duel 2 5) \<and> turn (duel 2 5) < 2 ^ 53
   \<and> turn (state (duelTurn 2 5 (ShieldAction ''A1'') (ShieldAction ''B1''))) = 11
   \<and> log_turn (log (duelTurn 2 5 (ShieldAction ''A1'') (ShieldAction ''B1''))) = 10"
  using resolveTurn_increments_turn
    [of "\<lparr>in_state = duel 2 5, actionsA = [ShieldAction ''A1''], actionsB = [ShieldAction ''B1'']\<rparr>"]
  by (simp add: duelTurn_def duel_def)

subsection \<open>Win and draw detection\<close>

text \<open>
  Claim C1. The outcome of a resolved turn follows a strict precedence, read off the
  returned state. If both Cores end with \<open>hp \<le> 0\<close>, the result is a draw: no winner,
  the game has ended, a Draw event for mutual destruction is logged and no TerminalLoss
  event is. Else, if exactly one Core has \<open>hp \<le> 0\<close>, the opponent of its side wins and
  GameOver is logged, whether or not the winner has Quantars left. Else, if neither side
  has a surviving Quantar, the result is a draw; if exactly one side has none, the other
  side wins and the log ends with TerminalLoss for the loser (reason \<open>no_quantars\<close>)
  followed by GameOver for the winner. Otherwise there is no winner this turn.
\<close>

theorem win_condition_precedence:
  "(c_hp (coreA (state (resolveTurn input))) \<le> 0 \<and> c_hp (coreB (state (resolveTurn input))) \<le> 0 \<longrightarrow>
      winner (state (resolveTurn input)) = None
      \<and> phase (state (resolveTurn input)) = Ended
      \<and> Draw ''mutual_destruction'' \<in> set (log_events (log (resolveTurn input)))
      \<and> (\<forall>l r. TerminalLoss l r \<notin> set (log_events (log (resolveTurn input)))))
   \<and> (c_hp (coreA (state (resolveTurn input))) \<le> 0 \<and> \<not> c_hp (coreB (state (resolveTurn input))) \<le> 0 \<longrightarrow>
      winner (state (resolveTurn input)) = Some PlayerB
      \<and> GameOver PlayerB \<in> set (log_events (log (resolveTurn input))))
   \<and> (\<not> c_hp (coreA (state (resolveTurn input))) \<le> 0 \<and> c_hp (coreB (state (resolveTurn input))) \<le> 0 \<longrightarrow>
      winner (state (resolveTurn input)) = Some PlayerA
      \<and> GameOver PlayerA \<in> set (log_events (log (resolveTurn input))))
   \<and> (\<not> c_hp (coreA (state (resolveTurn input))) \<le> 0 \<and> \<not> c_hp (coreB (state (resolveTurn input))) \<le> 0 \<longrightarrow>
        (filter (\<lambda>q. q_owner q = PlayerA) (quantars (state (resolveTurn input))) = []
         \<and> filter (\<lambda>q. q_owner q = PlayerB) (quantars (state (resolveTurn input))) = [] \<longrightarrow>
           winner (state (resolveTurn input)) = None
           \<and> phase (state (resolveTurn input)) = Ended
           \<and> Draw ''mutual_destruction'' \<in> set (log_events (log (resolveTurn input))))
      \<and> (filter (\<lambda>q. q_owner q = PlayerA) (quantars (state (resolveTurn input))) = []
         \<and> filter (\<lambda>q. q_owner q = PlayerB) (quantars (state (resolveTurn input))) \<noteq> [] \<longrightarrow>
           winner (state (resolveTurn input)) = Some PlayerB
           \<and> log_events (log (resolveTurn input)) =
               events (resolvePhases input) @ [TerminalLoss PlayerA ''no_quantars'', GameOver PlayerB])
      \<and> (filter (\<lambda>q. q_owner q = PlayerA) (quantars (state (resolveTurn input))) \<noteq> []
         \<and> filter (\<lambda>q. q_owner q = PlayerB) (quantars (state (resolveTurn input))) = [] \<longrightarrow>
           winner (state (resolveTurn input)) = Some PlayerA
           \<and> log_events (log (resolveTurn input)) =
               events (resolvePhases input) @ [TerminalLoss PlayerB ''no_quantars'', GameOver PlayerA])
      \<and> (filter (\<lambda>q. q_owner q = PlayerA) (quantars (state (resolveTurn input))) \<noteq> []
         \<and> filter (\<lambda>q. q_owner q = PlayerB) (quantars (state (resolveTurn input))) \<noteq> [] \<longrightarrow>
           winner (state (resolveTurn input)) = None))"
  unfolding survivors_filter resolveTurn_cores resolveTurn_winner resolveTurn_events resolveTurn_phase
  using no_outcome_in_phases(1) [of _ _ input]
  by (simp add: checkWinCondition_def Let_def)

text \<open>The five branches on the duel position: both Cores shot down in the same turn; one
  Core shot down; the two Quantars killing each other; one Quantar killed; a quiet
  turn.\<close>

theorem win_condition_precedence_witness:
  "(winner (state (duelTurn 2 1 (PulseAction ''A1'' PulseSouth) (PulseAction ''B1'' PulseNorth))) = None
    \<and> phase (state (duelTurn 2 1 (PulseAction ''A1'' PulseSouth) (PulseAction ''B1'' PulseNorth))) = Ended
    \<and> Draw ''mutual_destruction''
        \<in> set (log_events (log (duelTurn 2 1 (PulseAction ''A1'' PulseSouth) (PulseAction ''B1'' PulseNorth)))))
   \<and> (winner (state (duelTurn 2 1 (PulseAction ''A1'' PulseSouth) (ShieldAction ''B1''))) = Some PlayerB
    \<and> GameOver PlayerB
        \<in> set (log_events (log (duelTurn 2 1 (PulseAction ''A1'' PulseSouth) (ShieldAction ''B1'')))))
   \<and> (winner (state (duelTurn 1 5 (PulseAction ''A1'' PulseNorth) (PulseAction ''B1'' PulseSouth))) = None
    \<and> phase (state (duelTurn 1 5 (PulseAction ''A1'' PulseNorth) (PulseAction ''B1'' PulseSouth))) = Ended)
   \<and> (winner (state (duelTurn 1 5 (PulseAction ''A1'' PulseNorth) (PulseAction ''B1'' PulseEast))) = Some PlayerA
    \<and> log_events (log (duelTurn 1 5 (PulseAction ''A1'' PulseNorth) (PulseAction ''B1'' PulseEast))) =
        events (resolvePhases \<lparr>in_state = duel 1 5, actionsA = [PulseAction ''A1'' PulseNorth],
                                actionsB = [PulseAction ''B1'' PulseEast]\<rparr>)
        @ [TerminalLoss PlayerB ''no_quantars'', GameOver PlayerA])
   \<and> winner (state (duelTurn 2 5 (ShieldAction ''A1'') (ShieldAction ''B1''))) = None"
proof -
  have both: "c_hp (coreA (state (duelTurn 2 1 (PulseAction ''A1'' PulseSouth) (PulseAction ''B1'' PulseNorth)))) \<le> 0
      \<and> c_hp (coreB (state (duelTurn 2 1 (PulseAction ''A1'' PulseSouth) (PulseAction ''B1'' PulseNorth)))) \<le> 0"
    by code_simp
  have one: "c_hp (coreA (state (duelTurn 2 1 (PulseAction ''A1'' PulseSouth) (ShieldAction ''B1'')))) \<le> 0
      \<and> \<not> c_hp (coreB (state (duelTurn 2 1 (PulseAction ''A1'' PulseSouth) (ShieldAction ''B1'')))) \<le> 0"
    by code_simp
  have none2: "\<not> c_hp (coreA (state (duelTurn 1 5 (PulseAction ''A1'' PulseNorth) (PulseAction ''B1'' PulseSouth)))) \<le> 0
      \<and> \<not> c_hp (coreB (state (duelTurn 1 5 (PulseAction ''A1'' PulseNorth) (PulseAction ''B1'' PulseSouth)))) \<le> 0
      \<and> filter (\<lambda>q. q_owner q = PlayerA)
          (quantars (state (duelTurn 1 5 (PulseAction ''A1'' PulseNorth) (PulseAction ''B1'' PulseSouth)))) = []
      \<and> filter (\<lambda>q. q_owner q = PlayerB)
          (quantars (state (duelTurn 1 5 (PulseAction ''A1'' PulseNorth) (PulseAction ''B1'' PulseSouth)))) = []"
    by code_simp
  have loss: "\<not> c_hp (coreA (state (duelTurn 1 5 (PulseAction ''A1'' PulseNorth) (PulseAction ''B1'' PulseEast)))) \<le> 0
      \<and> \<not> c_hp (coreB (state (duelTurn 1 5 (PulseAction ''A1'' PulseNorth) (PulseAction ''B1'' PulseEast)))) \<le> 0
      \<and> filter (\<lambda>q. q_owner q = PlayerA)
          (quantars (state (duelTurn 1 5 (PulseAction ''A1'' PulseNorth) (PulseAction ''B1'' PulseEast)))) \<noteq> []
      \<and> filter (\<lambda>q. q_owner q = PlayerB)
          (quantars (state (duelTurn 1 5 (PulseAction ''A1'' PulseNorth) (PulseAction ''B1'' PulseEast)))) = []"
    by code_simp
  have quiet: "\<not> c_hp (coreA (state (duelTurn 2 5 (ShieldAction ''A1'') (ShieldAction ''B1'')))) \<le> 0
      \<and> \<not> c_hp (coreB (state (duelTurn 2 5 (ShieldAction ''A1'') (ShieldAction ''B1'')))) \<le> 0
      \<and> filter (\<lambda>q. q_owner q = PlayerA)
          (quantars (state (duelTurn 2 5 (ShieldAction ''A1'') (ShieldAction ''B1'')))) \<noteq> []
      \<and> filter (\<lambda>q. q_owner q = PlayerB)
          (quantars (state (duelTurn 2 5 (ShieldAction ''A1'') (ShieldAction ''B1'')))) \<noteq> []"
    by code_simp
  show ?thesis
    using both one none2 loss quiet
      win_condition_precedence [of "\<lparr>in_state = duel 2 1, actionsA = [PulseAction ''A1'' PulseSouth],
          actionsB = [PulseAction ''B1'' PulseNorth]\<rparr>"]
      win_condition_precedence [of "\<lparr>in_state = duel 2 1, actionsA = [PulseAction ''A1'' PulseSouth],
          actionsB = [ShieldAction ''B1'']\<rparr>"]
      win_condition_precedence [of "\<lparr>in_state = duel 1 5, actionsA = [PulseAction ''A1'' PulseNorth],
          actionsB = [PulseAction ''B1'' PulseSouth]\<rparr>"]
      win_condition_precedence [of "\<lparr>in_state = duel 1 5, actionsA = [PulseAction ''A1'' PulseNorth],
          actionsB = [PulseAction ''B1'' PulseEast]\<rparr>"]
      win_condition_precedence [of "\<lparr>in_state = duel 2 5, actionsA = [ShieldAction ''A1''],
          actionsB = [ShieldAction ''B1'']\<rparr>"]
    unfolding duelTurn_def by simp
qed


subsection \<open>Draw by turn limit\<close>

text \<open>
  Claim C7. When a resolution yields no winner and no mutual-destruction draw, the game
  ends in a draw with reason \<open>max_turns\<close> exactly when the input turn plus one reaches
  \<open>MAX_TURNS = 50\<close>; below the limit the game goes on and no Draw event is logged. In
  particular, from turn 49 the result has turn 50, phase Ended, no winner and a Draw
  event with reason \<open>max_turns\<close>; from turn 48 it has turn 49, phase Playing and no
  Draw event.
\<close>

theorem max_turns_draw:
  assumes "winner (state (resolveTurn input)) = None"
    and "Draw ''mutual_destruction'' \<notin> set (log_events (log (resolveTurn input)))"
  shows "MAX_TURNS = 50
    \<and> ((phase (state (resolveTurn input)) = Ended
         \<and> Draw ''max_turns'' \<in> set (log_events (log (resolveTurn input))))
        \<longleftrightarrow> turn (in_state input) + 1 \<ge> MAX_TURNS)
    \<and> (turn (in_state input) + 1 < MAX_TURNS \<longrightarrow>
          phase (state (resolveTurn input)) = Playing
          \<and> (\<forall>reason. Draw reason \<notin> set (log_events (log (resolveTurn input)))))
    \<and> (turn (in_state input) = 49 \<longrightarrow>
          turn (state (resolveTurn input)) = 50
          \<and> phase (state (resolveTurn input)) = Ended
          \<and> winner (state (resolveTurn input)) = None
          \<and> Draw ''max_turns'' \<in> set (log_events (log (resolveTurn input))))
    \<and> (turn (in_state input) = 48 \<longrightarrow>
          turn (state (resolveTurn input)) = 49
          \<and> phase (state (resolveTurn input)) = Playing
          \<and> (\<forall>reason. Draw reason \<notin> set (log_events (log (resolveTurn input)))))"
proof -
  have w: "wc_winner (checkWinCondition (resolvePhases input)) = None"
    using assms(1) by (simp add: resolveTurn_winner)
  have d: "\<not> isDraw (checkWinCondition (resolvePhases input))"
    using assms(2) by (auto simp: resolveTurn_events)
  have t: "turn (state (resolveTurn input)) = numberAdd (turn (in_state input)) 1"
    by (simp add: resolveTurn_def Let_def)
  have n: "numberAdd 49 1 = 50" "numberAdd 48 1 = 49"
    by (simp_all add: numberAdd_def roundToDouble_exact)
  show ?thesis
    using no_outcome_in_phases(3) [of _ input]
    by (auto simp: w d t n resolveTurn_events resolveTurn_phase resolveTurn_winner MAX_TURNS_def)
qed

text \<open>The two scenarios of the test suite: all six Quantars shield, from turn 49 and
  from turn 48.\<close>

theorem max_turns_draw_witness:
  "turn (state (resolveTurn (atTurn 49))) = 50
   \<and> phase (state (resolveTurn (atTurn 49))) = Ended
   \<and> winner (state (resolveTurn (atTurn 49))) = None
   \<and> Draw ''max_turns'' \<in> set (log_events (log (resolveTurn (atTurn 49))))
   \<and> turn (state (resolveTurn (atTurn 48))) = 49
   \<and> phase (state (resolveTurn (atTurn 48))) = Playing
   \<and> Draw ''max_turns'' \<notin> set (log_events (log (resolveTurn (atTurn 48))))"
proof -
  have a: "winner (state (resolveTurn (atTurn 49))) = None"
    "Draw ''mutual_destruction'' \<notin> set (log_events (log (resolveTurn (atTurn 49))))"
    by code_simp+
  have b: "winner (state (resolveTurn (atTurn 48))) = None"
    "Draw ''mutual_destruction'' \<notin> set (log_events (log (resolveTurn (atTurn 48))))"
    by code_simp+
  have t: "turn (in_state (atTurn 49)) = 49" "turn (in_state (atTurn 48)) = 48"
    by (simp_all add: atTurn_def)
  show ?thesis
    using max_turns_draw [OF a] max_turns_draw [OF b] t by simp
qed

subsection \<open>Damage\<close>



subsection \<open>Hit points in the returned state\<close>




subsection \<open>Validation of a player's actions\<close>

lemma validateEach_append:
  "validateEach st p seen (xs @ ys) =
     (case validateEach st p seen xs of Inl e \<Rightarrow> Inl e | Inr ids \<Rightarrow> validateEach st p ids ys)"
  by (induction xs arbitrary: seen) (simp_all split: ValidationResult.splits)

lemma validateEach_Inr:
  "validateEach st p seen acts = Inr ids \<longleftrightarrow>
     distinct (map quantarId acts) \<and> quantarId ` set acts \<inter> seen = {}
     \<and> (\<forall>a \<in> set acts. validateAction st a p = Valid)
     \<and> ids = seen \<union> quantarId ` set acts"
proof (induction acts arbitrary: seen)
  case Nil
  show ?case by auto
next
  case (Cons a acts)
  show ?case
  proof (cases "quantarId a \<in> seen")
    case True
    then show ?thesis by auto
  next
    case False
    show ?thesis
    proof (cases "validateAction st a p")
      case Valid
      with False Cons.IH [of "insert (quantarId a) seen"] show ?thesis by auto
    next
      case (Invalid e c)
      with False show ?thesis by auto
    qed
  qed
qed

lemma validateEach_first_failure:
  assumes "k < length acts"
    and "distinct (map quantarId (take k acts))"
    and "\<forall>a \<in> set (take k acts). validateAction st a p = Valid"
  shows "validateEach st p {} acts =
     (if quantarId (acts ! k) \<in> quantarId ` set (take k acts)
      then Inl (Invalid (''Duplicate action for Quantar '' @ quantarId (acts ! k))
                  DUPLICATE_QUANTAR_ACTION)
      else case validateAction st (acts ! k) p of
             Invalid e c \<Rightarrow> Inl (Invalid e c)
           | Valid \<Rightarrow> validateEach st p (insert (quantarId (acts ! k)) (quantarId ` set (take k acts)))
                        (drop (Suc k) acts))"
proof -
  have pre: "validateEach st p {} (take k acts) = Inr (quantarId ` set (take k acts))"
    using assms(2,3) by (simp add: validateEach_Inr)
  have "acts = take k acts @ acts ! k # drop (Suc k) acts"
    using assms(1) by (simp add: id_take_nth_drop)
  then have "validateEach st p {} acts =
      validateEach st p {} (take k acts @ acts ! k # drop (Suc k) acts)"
    by simp
  also have "\<dots> = validateEach st p (quantarId ` set (take k acts)) (acts ! k # drop (Suc k) acts)"
    by (simp only: validateEach_append pre sum.case)
  finally show ?thesis by simp
qed

lemma validateEach_Inl_Invalid:
  "validateEach st p seen acts \<noteq> Inl Valid"
  by (induction acts arbitrary: seen) (auto split: ValidationResult.splits)

lemma validatePlayerActions_Playing:
  assumes "phase st = Playing"
  shows "validatePlayerActions st actions p =
     (case validateEach st p {} actions of
        Inl failure \<Rightarrow> failure
      | Inr ids \<Rightarrow>
          (case List.find (\<lambda>q. q_id q \<notin> ids)
                  (filter (\<lambda>q. q_hp q > 0) (filter (\<lambda>q. q_owner q = p) (quantars st))) of
             Some quantar \<Rightarrow>
               Invalid (''Missing action for Quantar '' @ q_id quantar) MISSING_QUANTAR_ACTION
           | None \<Rightarrow> Valid))"
  using assms by (simp add: validatePlayerActions_def getPlayerQuantars_def Let_def)

lemma validatePlayerActions_Valid_iff:
  "validatePlayerActions st actions p = Valid \<longleftrightarrow>
     phase st = Playing \<and> distinct (map quantarId actions)
     \<and> (\<forall>a \<in> set actions. validateAction st a p = Valid)
     \<and> (\<forall>q \<in> set (quantars st). q_owner q = p \<and> q_hp q > 0 \<longrightarrow> q_id q \<in> quantarId ` set actions)"
proof (cases "phase st = Playing")
  case False
  then show ?thesis by (simp add: validatePlayerActions_def)
next
  case True
  show ?thesis
  proof (cases "validateEach st p {} actions")
    case (Inl f)
    then have "\<not> (distinct (map quantarId actions)
        \<and> (\<forall>a \<in> set actions. validateAction st a p = Valid))"
      using validateEach_Inr [of st p "{}" actions] by auto
    moreover have "validatePlayerActions st actions p \<noteq> Valid"
      using validateEach_Inl_Invalid [of st p "{}" actions] Inl True
      by (auto simp: validatePlayerActions_Playing)
    ultimately show ?thesis by blast
  next
    case (Inr ids)
    then have ok: "distinct (map quantarId actions)"
      "\<forall>a \<in> set actions. validateAction st a p = Valid"
      "ids = quantarId ` set actions"
      using validateEach_Inr [of st p "{}" actions ids] by auto
    have "validatePlayerActions st actions p = Valid \<longleftrightarrow>
        List.find (\<lambda>q. q_id q \<notin> ids)
          (filter (\<lambda>q. q_hp q > 0) (filter (\<lambda>q. q_owner q = p) (quantars st))) = None"
      using True Inr by (simp add: validatePlayerActions_Playing split: option.splits)
    also have "\<dots> \<longleftrightarrow> (\<forall>q \<in> set (quantars st). q_owner q = p \<and> q_hp q > 0 \<longrightarrow>
        q_id q \<in> quantarId ` set actions)"
      using ok(3) by (auto simp: find_None_iff)
    finally show ?thesis
      using True ok(1,2) by blast
  qed
qed

text \<open>
  Claim C8. \<open>validatePlayerActions\<close> succeeds exactly when the phase is Playing, no two
  actions of the sequence name the same Quantar, every action passes \<open>validateAction\<close>
  for the player, and every live Quantar of the player has an action. Otherwise it fails:
  with \<open>GAME_NOT_IN_ACTION_PHASE\<close> when the phase is not Playing; else, scanning the
  actions in input order, at the first action that repeats an earlier id with
  \<open>DUPLICATE_QUANTAR_ACTION\<close>, or that fails \<open>validateAction\<close> with that action's own
  result, whichever comes first; else with \<open>MISSING_QUANTAR_ACTION\<close>. The function
  only reads the state: in the model it returns a result and no state.
\<close>

theorem validatePlayerActions_result:
  "(validatePlayerActions st actions p = Valid \<longleftrightarrow>
      phase st = Playing \<and> distinct (map quantarId actions)
      \<and> (\<forall>a \<in> set actions. validateAction st a p = Valid)
      \<and> (\<forall>q \<in> set (quantars st). q_owner q = p \<and> q_hp q > 0 \<longrightarrow>
            q_id q \<in> quantarId ` set actions))
   \<and> (phase st \<noteq> Playing \<longrightarrow>
        (\<exists>msg. validatePlayerActions st actions p = Invalid msg GAME_NOT_IN_ACTION_PHASE))
   \<and> (phase st = Playing \<longrightarrow>
        (\<forall>k < length actions.
            distinct (map quantarId (take k actions))
            \<and> (\<forall>a \<in> set (take k actions). validateAction st a p = Valid) \<longrightarrow>
              (quantarId (actions ! k) \<in> quantarId ` set (take k actions) \<longrightarrow>
                 (\<exists>msg. validatePlayerActions st actions p = Invalid msg DUPLICATE_QUANTAR_ACTION))
              \<and> (quantarId (actions ! k) \<notin> quantarId ` set (take k actions)
                   \<and> validateAction st (actions ! k) p \<noteq> Valid \<longrightarrow>
                 validatePlayerActions st actions p = validateAction st (actions ! k) p))
        \<and> (distinct (map quantarId actions)
            \<and> (\<forall>a \<in> set actions. validateAction st a p = Valid)
            \<and> (\<exists>q \<in> set (quantars st). q_owner q = p \<and> q_hp q > 0
                  \<and> q_id q \<notin> quantarId ` set actions) \<longrightarrow>
              (\<exists>msg. validatePlayerActions st actions p = Invalid msg MISSING_QUANTAR_ACTION)))"
proof (intro conjI impI allI)
  show "validatePlayerActions st actions p = Valid \<longleftrightarrow>
      phase st = Playing \<and> distinct (map quantarId actions)
      \<and> (\<forall>a \<in> set actions. validateAction st a p = Valid)
      \<and> (\<forall>q \<in> set (quantars st). q_owner q = p \<and> q_hp q > 0 \<longrightarrow>
            q_id q \<in> quantarId ` set actions)"
    by (rule validatePlayerActions_Valid_iff)
next
  assume "phase st \<noteq> Playing"
  then show "\<exists>msg. validatePlayerActions st actions p = Invalid msg GAME_NOT_IN_ACTION_PHASE"
    by (simp add: validatePlayerActions_def)
next
  fix k
  assume pl: "phase st = Playing" and k: "k < length actions"
    and pre: "distinct (map quantarId (take k actions))
       \<and> (\<forall>a \<in> set (take k actions). validateAction st a p = Valid)"
    and dup: "quantarId (actions ! k) \<in> quantarId ` set (take k actions)"
  show "\<exists>msg. validatePlayerActions st actions p = Invalid msg DUPLICATE_QUANTAR_ACTION"
    using validateEach_first_failure [OF k, of st p] pre dup
    by (simp add: validatePlayerActions_Playing [OF pl])
next
  fix k
  assume pl: "phase st = Playing" and k: "k < length actions"
    and pre: "distinct (map quantarId (take k actions))
       \<and> (\<forall>a \<in> set (take k actions). validateAction st a p = Valid)"
    and bad: "quantarId (actions ! k) \<notin> quantarId ` set (take k actions)
       \<and> validateAction st (actions ! k) p \<noteq> Valid"
  show "validatePlayerActions st actions p = validateAction st (actions ! k) p"
    using validateEach_first_failure [OF k, of st p] pre bad
    by (auto simp: validatePlayerActions_Playing [OF pl] split: ValidationResult.splits)
next
  assume pl: "phase st = Playing"
    and h: "distinct (map quantarId actions)
       \<and> (\<forall>a \<in> set actions. validateAction st a p = Valid)
       \<and> (\<exists>q \<in> set (quantars st). q_owner q = p \<and> q_hp q > 0
             \<and> q_id q \<notin> quantarId ` set actions)"
  have inr: "validateEach st p {} actions = Inr (quantarId ` set actions)"
    using h by (simp add: validateEach_Inr)
  have "List.find (\<lambda>q. q_id q \<notin> quantarId ` set actions)
      (filter (\<lambda>q. q_hp q > 0) (filter (\<lambda>q. q_owner q = p) (quantars st))) \<noteq> None"
    using h by (auto simp: find_None_iff)
  then show "\<exists>msg. validatePlayerActions st actions p = Invalid msg MISSING_QUANTAR_ACTION"
    by (auto simp: validatePlayerActions_Playing [OF pl] inr)
qed

text \<open>The scenarios of the test suite on the initial position: a complete valid
  submission; a finished game; two actions for \<open>A1\<close>; an action for the opponent's
  \<open>B2\<close>; actions for two of the three Quantars.\<close>

theorem validatePlayerActions_result_witness:
  "validatePlayerActions createInitialState
      [ShieldAction ''A1'', MoveAction ''A2'' North, PulseAction ''A3'' NorthEast] PlayerA = Valid
   \<and> (\<exists>msg. validatePlayerActions (createInitialState\<lparr>phase := Ended\<rparr>)
        [ShieldAction ''A1'', ShieldAction ''A2'', ShieldAction ''A3''] PlayerA
          = Invalid msg GAME_NOT_IN_ACTION_PHASE)
   \<and> (\<exists>msg. validatePlayerActions createInitialState
        [ShieldAction ''A1'', ShieldAction ''A1'', ShieldAction ''A3''] PlayerA
          = Invalid msg DUPLICATE_QUANTAR_ACTION)
   \<and> validatePlayerActions createInitialState
        [ShieldAction ''A1'', ShieldAction ''B2'', ShieldAction ''A3''] PlayerA
        = validateAction createInitialState (ShieldAction ''B2'') PlayerA
   \<and> (\<exists>msg. validatePlayerActions createInitialState
        [ShieldAction ''A1'', ShieldAction ''A2''] PlayerA
          = Invalid msg MISSING_QUANTAR_ACTION)"
proof -
  let ?s = createInitialState
  let ?ok = "[ShieldAction ''A1'', MoveAction ''A2'' North, PulseAction ''A3'' NorthEast]"
  let ?dup = "[ShieldAction ''A1'', ShieldAction ''A1'', ShieldAction ''A3'']"
  let ?own = "[ShieldAction ''A1'', ShieldAction ''B2'', ShieldAction ''A3'']"
  let ?mis = "[ShieldAction ''A1'', ShieldAction ''A2'']"
  have ok: "phase ?s = Playing \<and> distinct (map quantarId ?ok)
      \<and> list_all (\<lambda>a. validateAction ?s a PlayerA = Valid) ?ok
      \<and> list_all (\<lambda>q. q_owner q = PlayerA \<and> q_hp q > 0 \<longrightarrow> q_id q \<in> quantarId ` set ?ok)
          (quantars ?s)"
    by code_simp
  have ended: "phase (?s\<lparr>phase := Ended\<rparr>) \<noteq> Playing"
    by simp
  have dup: "phase ?s = Playing \<and> 1 < length ?dup \<and> distinct (map quantarId (take 1 ?dup))
      \<and> list_all (\<lambda>a. validateAction ?s a PlayerA = Valid) (take 1 ?dup)
      \<and> quantarId (?dup ! 1) \<in> quantarId ` set (take 1 ?dup)"
    by code_simp
  have own: "phase ?s = Playing \<and> 1 < length ?own \<and> distinct (map quantarId (take 1 ?own))
      \<and> list_all (\<lambda>a. validateAction ?s a PlayerA = Valid) (take 1 ?own)
      \<and> quantarId (?own ! 1) \<notin> quantarId ` set (take 1 ?own)
      \<and> validateAction ?s (?own ! 1) PlayerA \<noteq> Valid \<and> ?own ! 1 = ShieldAction ''B2''"
    by code_simp
  have mis: "phase ?s = Playing \<and> distinct (map quantarId ?mis)
      \<and> list_all (\<lambda>a. validateAction ?s a PlayerA = Valid) ?mis
      \<and> list_ex (\<lambda>q. q_owner q = PlayerA \<and> q_hp q > 0 \<and> q_id q \<notin> quantarId ` set ?mis)
          (quantars ?s)"
    by code_simp
  have 1: "validatePlayerActions ?s ?ok PlayerA = Valid"
    using validatePlayerActions_result [of ?s ?ok PlayerA] ok
    unfolding list_all_iff by blast
  have 2: "\<exists>msg. validatePlayerActions (?s\<lparr>phase := Ended\<rparr>)
        [ShieldAction ''A1'', ShieldAction ''A2'', ShieldAction ''A3''] PlayerA
          = Invalid msg GAME_NOT_IN_ACTION_PHASE"
    using validatePlayerActions_result [of "?s\<lparr>phase := Ended\<rparr>" _ PlayerA] ended by blast
  have 3: "\<exists>msg. validatePlayerActions ?s ?dup PlayerA = Invalid msg DUPLICATE_QUANTAR_ACTION"
    using validatePlayerActions_result [of ?s ?dup PlayerA] dup
    unfolding list_all_iff by blast
  have 4: "validatePlayerActions ?s ?own PlayerA = validateAction ?s (ShieldAction ''B2'') PlayerA"
    using validatePlayerActions_result [of ?s ?own PlayerA] own
    unfolding list_all_iff by metis
  have 5: "\<exists>msg. validatePlayerActions ?s ?mis PlayerA = Invalid msg MISSING_QUANTAR_ACTION"
    using validatePlayerActions_result [of ?s ?mis PlayerA] mis
    unfolding list_all_iff list_ex_iff by blast
  show ?thesis using 1 2 3 4 5 by blast
qed

section \<open>Properties of the state hash\<close>

lemma digitChar_hex: "d < 16 \<Longrightarrow> digitChar d \<in> set ''0123456789abcdef''"
  unfolding digitChar_def by (rule nth_mem) simp

lemma natToString_16_chars: "set (natToString 16 n) \<subseteq> set ''0123456789abcdef''"
proof (induction n rule: less_induct)
  case (less n)
  show ?case
  proof (cases "n < 16")
    case True
    then show ?thesis
      using digitChar_hex [of n] by (subst natToString.simps) simp
  next
    case False
    then have "n div 16 < n" by simp
    then have "set (natToString 16 (n div 16)) \<subseteq> set ''0123456789abcdef''"
      by (rule less.IH)
    moreover have "digitChar (n mod 16) \<in> set ''0123456789abcdef''"
      by (rule digitChar_hex) simp
    ultimately show ?thesis
      using False by (subst natToString.simps) simp
  qed
qed

lemma natToString_16_length: "n < 16 ^ k \<Longrightarrow> 0 < k \<Longrightarrow> length (natToString 16 n) \<le> k"
proof (induction k arbitrary: n)
  case 0
  then show ?case by simp
next
  case (Suc k)
  show ?case
  proof (cases "n < 16")
    case True
    then show ?thesis by (subst natToString.simps) simp
  next
    case False
    then have k: "0 < k" using Suc.prems(1) by (cases k) auto
    have "n div 16 < 16 ^ k"
      using Suc.prems(1) by (simp add: less_mult_imp_div_less mult.commute)
    then have "length (natToString 16 (n div 16)) \<le> k"
      using Suc.IH k by simp
    then show ?thesis
      using False by (subst natToString.simps) simp
  qed
qed

lemma djb2Hash_bound: "djb2Hash str < 2 ^ 32"
proof -
  have "unat w < 2 ^ LENGTH(32)" for w :: "32 word"
    by (rule unsigned_less)
  then show ?thesis
    by (simp add: djb2Hash_def)
qed

lemma hexDigitValue_digitChar: "d < 16 \<Longrightarrow> hexDigitValue (digitChar d) = d"
proof -
  have "\<forall>d \<in> set [0..<16]. hexDigitValue (digitChar d) = d"
    by code_simp
  then show "d < 16 \<Longrightarrow> hexDigitValue (digitChar d) = d"
    by simp
qed

lemma hexValue_snoc: "hexValue (cs @ [c]) = 16 * hexValue cs + hexDigitValue c"
  by (simp add: hexValue_def)

lemma hexValue_natToString: "hexValue (natToString 16 n) = n"
proof (induction n rule: less_induct)
  case (less n)
  show ?case
  proof (cases "n < 16")
    case True
    then show ?thesis
      by (subst natToString.simps) (simp add: hexValue_def hexDigitValue_digitChar)
  next
    case False
    then have "hexValue (natToString 16 (n div 16)) = n div 16"
      by (intro less.IH) simp
    then show ?thesis
      using False
      by (subst natToString.simps) (simp add: hexValue_snoc hexDigitValue_digitChar)
  qed
qed

lemma hexValue_padStart: "hexValue (padStart k (CHR ''0'') str) = hexValue str"
proof -
  have z: "hexDigitValue (CHR ''0'') = 0"
    by code_simp
  have "foldl (\<lambda>acc c. 16 * acc + hexDigitValue c) 0 (replicate m (CHR ''0'')) = 0" for m
    by (induction m) (simp_all add: z)
  then show ?thesis
    by (simp add: hexValue_def padStart_def)
qed

text \<open>
  Claim C10. For every game state, \<open>hashState\<close> returns a string of exactly 8
  characters, all of them hexadecimal digits; read as a hexadecimal numeral it is the
  unsigned 32-bit hash of the canonical form, so it is that hash rendered in base 16 and
  padded with zeros on the left. \<open>hashState\<close> is a function of the state (and of the
  platform's string comparison) alone: the same state always yields the same hash.
\<close>

theorem hashState_eight_hex_digits:
  "length (hashState localeCompare st) = 8
   \<and> set (hashState localeCompare st) \<subseteq> set ''0123456789abcdef''
   \<and> hexValue (hashState localeCompare st) = djb2Hash (canonicalizeState localeCompare st)
   \<and> djb2Hash (canonicalizeState localeCompare st) < 2 ^ 32"
proof -
  let ?h = "djb2Hash (canonicalizeState localeCompare st)"
  have b: "?h < 16 ^ 8"
    using djb2Hash_bound [of "canonicalizeState localeCompare st"] by simp
  have "length (natToString 16 ?h) \<le> 8"
    by (rule natToString_16_length [OF b]) simp
  then have "length (hashState localeCompare st) = 8"
    by (simp add: hashState_def hashToHex_def padStart_def)
  moreover have "set (hashState localeCompare st) \<subseteq> set ''0123456789abcdef''"
    using natToString_16_chars [of ?h]
    by (auto simp: hashState_def hashToHex_def padStart_def)
  moreover have "hexValue (hashState localeCompare st) = ?h"
    by (simp add: hashState_def hashToHex_def hexValue_padStart hexValue_natToString)
  ultimately show ?thesis
    using djb2Hash_bound [of "canonicalizeState localeCompare st"] by simp
qed

text \<open>The initial position, whose hash is \<open>009be5cd\<close>.\<close>

theorem hashState_eight_hex_digits_witness:
  "length (hashState (\<lambda>a b. 0) createInitialState) = 8
   \<and> hexValue (hashState (\<lambda>a b. 0) createInitialState) = 10216909"
proof -
  have c: "canonicalizeState (\<lambda>a b. 0) createInitialState =
      ''T:1|P:playing|W:null|C:A:4,8:5|C:B:4,0:5|Q:A1:A:3,6:2|Q:A2:A:4,6:2|Q:A3:A:5,6:2|Q:B1:B:3,2:2|Q:B2:B:4,2:2|Q:B3:B:5,2:2''"
    by code_simp
  have h: "djb2Hash
      ''T:1|P:playing|W:null|C:A:4,8:5|C:B:4,0:5|Q:A1:A:3,6:2|Q:A2:A:4,6:2|Q:A3:A:5,6:2|Q:B1:B:3,2:2|Q:B2:B:4,2:2|Q:B3:B:5,2:2''
      = 10216909"
    by (simp add: djb2Hash_def)
  show ?thesis
    using hashState_eight_hex_digits [of "\<lambda>a b. 0" createInitialState] c h by simp
qed

section \<open>Properties of the pulse phase\<close>

lemma findIndex_map: "findIndex P (map f xs) = findIndex (\<lambda>v. P (f v)) xs"
  by (induction xs) simp_all

lemma findIndex_Some:
  "findIndex P xs = Some i \<Longrightarrow> i < length xs \<and> P (xs ! i) \<and> (\<forall>j < i. \<not> P (xs ! j))"
proof (induction xs arbitrary: i)
  case Nil
  then show ?case by simp
next
  case (Cons v vs)
  show ?case
  proof (cases "P v")
    case True
    with Cons.prems show ?thesis by simp
  next
    case False
    with Cons.prems obtain i' where i': "findIndex P vs = Some i'" "i = Suc i'"
      by (auto split: option.splits)
    from Cons.IH [OF i'(1)] False i'(2) show ?thesis
      by (auto simp: nth_Cons split: nat.splits)
  qed
qed

lemma board_quantars:
  assumes "board st = board st'"
  shows "length (r_quantars st) = length (r_quantars st')"
    and "i < length (r_quantars st) \<Longrightarrow> m_id (r_quantars st ! i) = m_id (r_quantars st' ! i)"
    and "i < length (r_quantars st) \<Longrightarrow> m_position (r_quantars st ! i) = m_position (r_quantars st' ! i)"
    and "i < length (r_quantars st) \<Longrightarrow> m_hp (r_quantars st ! i) = m_hp (r_quantars st' ! i)"
proof -
  have eq: "map (\<lambda>q. (m_id q, m_position q, m_hp q)) (r_quantars st) =
      map (\<lambda>q. (m_id q, m_position q, m_hp q)) (r_quantars st')"
    using assms by (simp add: board_def)
  then show len: "length (r_quantars st) = length (r_quantars st')"
    by (rule map_eq_imp_length_eq)
  assume i: "i < length (r_quantars st)"
  have "map (\<lambda>q. (m_id q, m_position q, m_hp q)) (r_quantars st) ! i =
      map (\<lambda>q. (m_id q, m_position q, m_hp q)) (r_quantars st') ! i"
    by (simp only: eq)
  then have "(m_id (r_quantars st ! i), m_position (r_quantars st ! i), m_hp (r_quantars st ! i))
      = (m_id (r_quantars st' ! i), m_position (r_quantars st' ! i), m_hp (r_quantars st' ! i))"
    using i len by simp
  then show "m_id (r_quantars st ! i) = m_id (r_quantars st' ! i)"
    "m_position (r_quantars st ! i) = m_position (r_quantars st' ! i)"
    "m_hp (r_quantars st ! i) = m_hp (r_quantars st' ! i)"
    by simp_all
qed

lemma board_cores:
  assumes "board st = board st'"
  shows "mc_position (coreOf st c) = mc_position (coreOf st' c)"
    and "mc_owner (coreOf st c) = mc_owner (coreOf st' c)"
  using assms by (simp_all add: board_def coreOf_def split: PlayerId.splits)

lemma board_getQuantarById:
  assumes "board st = board st'"
  shows "getQuantarById st qid = getQuantarById st' qid"
proof -
  have "findIndex (\<lambda>k. fst k = qid) (map (\<lambda>q. (m_id q, m_position q, m_hp q)) (r_quantars st))
      = findIndex (\<lambda>k. fst k = qid) (map (\<lambda>q. (m_id q, m_position q, m_hp q)) (r_quantars st'))"
    using assms by (simp add: board_def)
  then show ?thesis
    by (simp add: getQuantarById_def findIndex_map)
qed

lemma board_getEntityAtPosition:
  assumes "board st = board st'"
  shows "getEntityAtPosition st p = getEntityAtPosition st' p"
proof -
  have "findIndex (\<lambda>k. snd (snd k) > 0 \<and> positionsEqual (fst (snd k)) p)
         (map (\<lambda>q. (m_id q, m_position q, m_hp q)) (r_quantars st))
      = findIndex (\<lambda>k. snd (snd k) > 0 \<and> positionsEqual (fst (snd k)) p)
         (map (\<lambda>q. (m_id q, m_position q, m_hp q)) (r_quantars st'))"
    using assms by (simp add: board_def)
  then have "findIndex (\<lambda>q. m_hp q > 0 \<and> positionsEqual (m_position q) p) (r_quantars st)
      = findIndex (\<lambda>q. m_hp q > 0 \<and> positionsEqual (m_position q) p) (r_quantars st')"
    by (simp add: findIndex_map)
  moreover have "mc_position (r_coreA st) = mc_position (r_coreA st')"
    "mc_position (r_coreB st) = mc_position (r_coreB st')"
    using assms by (simp_all add: board_def)
  ultimately show ?thesis
    by (simp add: getEntityAtPosition_def)
qed

lemma board_tracePulse:
  "board st = board st' \<Longrightarrow> tracePulse st p dir = tracePulse st' p dir"
proof (induction st p dir rule: tracePulse.induct)
  case (1 st currentPos dir)
  let ?next = "applyPulseDirection currentPos dir"
  have e: "getEntityAtPosition st ?next = getEntityAtPosition st' ?next"
    by (rule board_getEntityAtPosition [OF "1.prems"])
  show ?case
  proof (cases "isInBounds ?next")
    case False
    then show ?thesis
      by (simp add: tracePulse.simps [of st currentPos dir] tracePulse.simps [of st' currentPos dir])
  next
    case True
    show ?thesis
    proof (cases "getEntityAtPosition st ?next")
      case None
      then have "tracePulse st ?next dir = tracePulse st' ?next dir"
        using "1.IH" True "1.prems" by simp
      then show ?thesis
        using True None e
        by (simp add: tracePulse.simps [of st currentPos dir] tracePulse.simps [of st' currentPos dir])
    next
      case (Some a)
      then show ?thesis
        using True e
        by (simp add: tracePulse.simps [of st currentPos dir] tracePulse.simps [of st' currentPos dir])
    qed
  qed
qed

lemma board_hitTarget:
  "board st = board st' \<Longrightarrow> hitTarget st p dir = hitTarget st' p dir"
  using board_tracePulse [of st st' p dir]
    board_getEntityAtPosition [of st st' "applyPulseDirection p dir"]
  by (simp add: hitTarget_def Let_def)

lemma firing_less: "firing st a = Some i \<Longrightarrow> i < length (r_quantars st)"
  using findIndex_Some [of "\<lambda>q. m_id q = fst a" "r_quantars st"]
  by (auto simp: firing_def getQuantarById_def split: option.splits if_splits)

lemma board_firing:
  assumes "board st = board st'"
  shows "firing st a = firing st' a"
proof (cases "getQuantarById st (fst a)")
  case None
  then show ?thesis
    using board_getQuantarById [OF assms, of "fst a"] by (simp add: firing_def)
next
  case (Some i)
  then have "i < length (r_quantars st)"
    using findIndex_Some [of "\<lambda>q. m_id q = fst a" "r_quantars st" i]
    by (simp add: getQuantarById_def)
  then have "m_hp (r_quantars st ! i) = m_hp (r_quantars st' ! i)"
    by (rule board_quantars(4) [OF assms])
  then show ?thesis
    using Some board_getQuantarById [OF assms, of "fst a"] by (simp add: firing_def)
qed

lemma board_pulseTarget:
  assumes "board st = board st'"
  shows "pulseTarget st a = pulseTarget st' a"
proof (cases "firing st a")
  case None
  then show ?thesis
    using board_firing [OF assms, of a] by (simp add: pulseTarget_def)
next
  case (Some i)
  then have "m_position (r_quantars st ! i) = m_position (r_quantars st' ! i)"
    using board_quantars(3) [OF assms] firing_less by blast
  then show ?thesis
    using Some board_firing [OF assms, of a] board_hitTarget [OF assms]
    by (simp add: pulseTarget_def)
qed

lemma getEntityAtPosition_less:
  "getEntityAtPosition st p = Some (QuantarRef t) \<Longrightarrow> t < length (r_quantars st)"
  using findIndex_Some [of "\<lambda>q. m_hp q > 0 \<and> positionsEqual (m_position q) p" "r_quantars st"]
  by (auto simp: getEntityAtPosition_def split: option.splits if_splits)

lemma tracePulse_less:
  "tracePulse st p dir = Some (QuantarRef t) \<Longrightarrow> t < length (r_quantars st)"
proof (induction st p dir rule: tracePulse.induct)
  case (1 st currentPos dir)
  from "1.prems" show ?case
    using "1.IH" getEntityAtPosition_less [of st "applyPulseDirection currentPos dir" t]
    by (subst (asm) tracePulse.simps) (auto split: if_splits option.splits)
qed

lemma pulseTarget_less:
  "pulseTarget st a = Some (QuantarRef t) \<Longrightarrow> t < length (r_quantars st)"
  using tracePulse_less getEntityAtPosition_less
  by (auto simp: pulseTarget_def hitTarget_def Let_def split: option.splits if_splits)

lemma board_pulseEvents:
  assumes "board st = board st'"
  shows "pulseEvents st a = pulseEvents st' a"
proof (cases "firing st a")
  case None
  then show ?thesis
    using board_firing [OF assms, of a] by (simp add: pulseEvents_def)
next
  case (Some i)
  then have i: "i < length (r_quantars st)"
    by (rule firing_less)
  have f: "firing st' a = Some i"
    using Some board_firing [OF assms, of a] by simp
  have q: "m_id (r_quantars st ! i) = m_id (r_quantars st' ! i)"
    "m_position (r_quantars st ! i) = m_position (r_quantars st' ! i)"
    using board_quantars(2,3) [OF assms i] by simp_all
  have t: "pulseTarget st a = pulseTarget st' a"
    by (rule board_pulseTarget [OF assms])
  show ?thesis
  proof (cases "pulseTarget st a")
    case None
    then show ?thesis
      using Some f q t by (simp add: pulseEvents_def)
  next
    case (Some e)
    then have t': "pulseTarget st' a = Some e"
      using t by simp
    show ?thesis
    proof (cases e)
      case (QuantarRef k)
      then have "k < length (r_quantars st)"
        using Some pulseTarget_less by blast
      then have "m_id (r_quantars st ! k) = m_id (r_quantars st' ! k)"
        by (rule board_quantars(2) [OF assms])
      then show ?thesis
        using \<open>firing st a = Some i\<close> f q Some t' QuantarRef by (simp add: pulseEvents_def)
    next
      case (CoreRef c)
      then show ?thesis
        using \<open>firing st a = Some i\<close> f q Some t' board_cores(2) [OF assms, of c]
        by (simp add: pulseEvents_def)
    qed
  qed
qed

lemma board_pushEvents [simp]: "board (pushEvents st evs) = board st"
  by (simp add: board_def pushEvents_def)

lemma board_addPendingDamage [simp]: "board (addPendingDamage st target) = board st"
proof (cases target)
  case (QuantarRef i)
  have "map (\<lambda>q. (m_id q, m_position q, m_hp q))
      ((r_quantars st)[i := (r_quantars st ! i)\<lparr>pendingDamage := d\<rparr>])
      = map (\<lambda>q. (m_id q, m_position q, m_hp q)) (r_quantars st)" for d
    by (cases "i < length (r_quantars st)")
       (simp_all add: map_update list_update_same_conv list_update_beyond)
  then show ?thesis
    using QuantarRef by (simp add: board_def addPendingDamage_def)
next
  case (CoreRef c)
  then show ?thesis
    by (cases c) (simp_all add: board_def addPendingDamage_def)
qed

lemma resolvePulse_unfold:
  "resolvePulse st a =
     (case firing st a of
        None \<Rightarrow> st
      | Some i \<Rightarrow>
          (case pulseTarget st a of
             None \<Rightarrow> pushEvents st (pulseEvents st a)
           | Some target \<Rightarrow> pushEvents (addPendingDamage st target) (pulseEvents st a)))"
proof (cases a)
  case (Pair qid dir)
  show ?thesis
  proof (cases "firing st a")
    case None
    then show ?thesis
      using Pair by (auto simp: resolvePulse_def firing_def Let_def split: option.splits if_splits)
  next
    case (Some i)
    then have g: "getQuantarById st qid = Some i" "m_hp (r_quantars st ! i) > 0"
      using Pair by (auto simp: firing_def split: option.splits if_splits)
    let ?q = "r_quantars st ! i"
    let ?st1 = "pushEvents st [PulseFired (m_id ?q) (m_position ?q) dir]"
    have h: "hitTarget ?st1 (m_position ?q) dir = pulseTarget st a"
      using Some Pair board_hitTarget [of ?st1 st] by (simp add: pulseTarget_def)
    show ?thesis
    proof (cases "pulseTarget st a")
      case None
      then show ?thesis
        using Some Pair g h
        by (simp add: resolvePulse_def Let_def pulseEvents_def pushEvents_def)
    next
      case (Some e)
      then show ?thesis
        using \<open>firing st a = Some i\<close> Pair g h
        by (cases e)
           (simp_all add: resolvePulse_def Let_def pulseEvents_def pushEvents_def
              addPendingDamage_def pulseHitEvent_def PULSE_DAMAGE_def coreOf_def
              split: PlayerId.splits)
    qed
  qed
qed

lemma board_resolvePulse [simp]: "board (resolvePulse st a) = board st"
  by (simp add: resolvePulse_unfold split: option.splits)

lemma events_resolvePulse: "events (resolvePulse st a) = events st @ pulseEvents st a"
  by (simp add: resolvePulse_unfold pulseEvents_def split: option.splits)

lemma length_resolvePulse [simp]:
  "length (r_quantars (resolvePulse st a)) = length (r_quantars st)"
  using board_quantars(1) [of "resolvePulse st a" st] by simp

lemma pending_addPendingDamage:
  "t < length (r_quantars st) \<Longrightarrow>
   pendingDamage (r_quantars (addPendingDamage st target) ! t) =
     pendingDamage (r_quantars st ! t) + (if target = QuantarRef t then PULSE_DAMAGE else 0)"
  by (cases target) (auto simp: addPendingDamage_def nth_list_update split: PlayerId.splits)

lemma corePending_addPendingDamage:
  "mc_pendingDamage (coreOf (addPendingDamage st target) c) =
     mc_pendingDamage (coreOf st c) + (if target = CoreRef c then PULSE_DAMAGE else 0)"
  by (cases target; cases c) (auto simp: addPendingDamage_def coreOf_def split: PlayerId.splits)

lemma coreOf_pushEvents [simp]: "coreOf (pushEvents st evs) c = coreOf st c"
  by (simp add: coreOf_def split: PlayerId.splits)

lemma pending_resolvePulse:
  "t < length (r_quantars st) \<Longrightarrow>
   pendingDamage (r_quantars (resolvePulse st a) ! t) =
     pendingDamage (r_quantars st ! t)
       + (if pulseTarget st a = Some (QuantarRef t) then PULSE_DAMAGE else 0)"
  by (auto simp: resolvePulse_unfold pending_addPendingDamage pulseTarget_def
      split: option.splits)

lemma corePending_resolvePulse:
  "mc_pendingDamage (coreOf (resolvePulse st a) c) =
     mc_pendingDamage (coreOf st c)
       + (if pulseTarget st a = Some (CoreRef c) then PULSE_DAMAGE else 0)"
  by (auto simp: resolvePulse_unfold corePending_addPendingDamage pulseTarget_def
      split: option.splits)

lemma foldl_resolvePulse:
  "board (foldl resolvePulse st acts) = board st
   \<and> events (foldl resolvePulse st acts) = events st @ concat (map (pulseEvents st) acts)
   \<and> (\<forall>t < length (r_quantars st).
        pendingDamage (r_quantars (foldl resolvePulse st acts) ! t) =
          pendingDamage (r_quantars st ! t)
            + PULSE_DAMAGE * int (length (filter (\<lambda>a. pulseTarget st a = Some (QuantarRef t)) acts)))
   \<and> (\<forall>c. mc_pendingDamage (coreOf (foldl resolvePulse st acts) c) =
          mc_pendingDamage (coreOf st c)
            + PULSE_DAMAGE * int (length (filter (\<lambda>a. pulseTarget st a = Some (CoreRef c)) acts)))"
proof (induction acts arbitrary: st)
  case Nil
  show ?case by simp
next
  case (Cons a acts)
  let ?st' = "resolvePulse st a"
  have b: "board ?st' = board st" by simp
  have pe: "pulseEvents ?st' = pulseEvents st"
    using board_pulseEvents [OF b] by (rule ext)
  have pt: "pulseTarget ?st' = pulseTarget st"
    using board_pulseTarget [OF b] by (rule ext)
  note IH = Cons.IH [of ?st', unfolded pe pt b length_resolvePulse]
  show ?case
    using IH
    by (simp add: events_resolvePulse pending_resolvePulse corePending_resolvePulse
        PULSE_DAMAGE_def)
qed

lemma ray_Suc: "ray (applyPulseDirection p dir) dir k = ray p dir (Suc k)"
  by (simp add: ray_def applyPulseDirection_def Let_def algebra_simps)

lemma ray_1: "ray p dir (Suc 0) = applyPulseDirection p dir"
  by (simp add: ray_def applyPulseDirection_def Let_def)

lemma tracePulse_first_occupant:
  "\<exists>k\<ge>1. (\<forall>j. 1 \<le> j \<and> j < k \<longrightarrow>
            isInBounds (ray p dir j) \<and> getEntityAtPosition st (ray p dir j) = None)
     \<and> (if isInBounds (ray p dir k)
         then getEntityAtPosition st (ray p dir k) \<noteq> None
              \<and> tracePulse st p dir = getEntityAtPosition st (ray p dir k)
         else tracePulse st p dir = None)"
proof (induction st p dir rule: tracePulse.induct)
  case (1 st currentPos dir)
  let ?next = "applyPulseDirection currentPos dir"
  show ?case
  proof (cases "isInBounds ?next \<and> getEntityAtPosition st ?next = None")
    case False
    then have "(\<forall>j. 1 \<le> j \<and> j < Suc 0 \<longrightarrow>
            isInBounds (ray currentPos dir j) \<and> getEntityAtPosition st (ray currentPos dir j) = None)
       \<and> (if isInBounds (ray currentPos dir (Suc 0))
           then getEntityAtPosition st (ray currentPos dir (Suc 0)) \<noteq> None
                \<and> tracePulse st currentPos dir = getEntityAtPosition st (ray currentPos dir (Suc 0))
           else tracePulse st currentPos dir = None)"
      by (auto simp: ray_1 tracePulse.simps [of st currentPos dir])
    then show ?thesis
      by (intro exI [of _ "Suc 0"]) simp
  next
    case True
    then obtain k where k: "1 \<le> k"
      "\<forall>j. 1 \<le> j \<and> j < k \<longrightarrow>
          isInBounds (ray ?next dir j) \<and> getEntityAtPosition st (ray ?next dir j) = None"
      "if isInBounds (ray ?next dir k)
       then getEntityAtPosition st (ray ?next dir k) \<noteq> None
            \<and> tracePulse st ?next dir = getEntityAtPosition st (ray ?next dir k)
       else tracePulse st ?next dir = None"
      using "1.IH" by auto
    have t: "tracePulse st currentPos dir = tracePulse st ?next dir"
      using True by (simp add: tracePulse.simps [of st currentPos dir])
    have "isInBounds (ray currentPos dir j) \<and> getEntityAtPosition st (ray currentPos dir j) = None"
      if "1 \<le> j \<and> j < Suc k" for j
    proof (cases j)
      case 0
      with that show ?thesis by simp
    next
      case (Suc j')
      show ?thesis
      proof (cases j')
        case 0
        then show ?thesis
          using True Suc by (simp add: ray_1)
      next
        case (Suc j'')
        then have "1 \<le> j' \<and> j' < k"
          using that \<open>j = Suc j'\<close> by simp
        then show ?thesis
          using k(2) \<open>j = Suc j'\<close> by (simp add: ray_Suc)
      qed
    qed
    moreover have "if isInBounds (ray currentPos dir (Suc k))
       then getEntityAtPosition st (ray currentPos dir (Suc k)) \<noteq> None
            \<and> tracePulse st currentPos dir = getEntityAtPosition st (ray currentPos dir (Suc k))
       else tracePulse st currentPos dir = None"
      unfolding t by (rule k(3) [unfolded ray_Suc])
    ultimately show ?thesis
      by (intro exI [of _ "Suc k"]) simp
  qed
qed

lemma board_resolveShield [simp]: "board (resolveShield st i) = board st"
proof (cases "getQuantarById st i")
  case None
  then show ?thesis by (simp add: resolveShield_def)
next
  case (Some k)
  have "map (\<lambda>q. (m_id q, m_position q, m_hp q))
      ((r_quantars st)[k := (r_quantars st ! k)\<lparr>shielded := True\<rparr>])
      = map (\<lambda>q. (m_id q, m_position q, m_hp q)) (r_quantars st)"
    by (cases "k < length (r_quantars st)")
       (simp_all add: map_update list_update_same_conv list_update_beyond)
  then show ?thesis
    using Some by (simp add: resolveShield_def Let_def board_def)
qed

lemma board_resolveShields [simp]: "board (resolveShields st actions) = board st"
  unfolding resolveShields_def by (rule foldl_unchanged) simp

lemma positionsEqual_iff: "positionsEqual a b \<longleftrightarrow> a = b"
  by (auto simp: positionsEqual_def intro: Position.equality)

lemma findIndex_None: "findIndex P xs = None \<longleftrightarrow> (\<forall>v \<in> set xs. \<not> P v)"
  by (induction xs) (auto split: option.splits)

lemma findIndex_Some_iff:
  "findIndex P xs = Some i \<longleftrightarrow>
     i < length xs \<and> P (xs ! i) \<and> (\<forall>j < i. \<not> P (xs ! j))"
proof
  assume "findIndex P xs = Some i"
  then show "i < length xs \<and> P (xs ! i) \<and> (\<forall>j < i. \<not> P (xs ! j))"
    by (rule findIndex_Some)
next
  assume r: "i < length xs \<and> P (xs ! i) \<and> (\<forall>j < i. \<not> P (xs ! j))"
  then have "xs ! i \<in> set xs" by simp
  then have "findIndex P xs \<noteq> None"
    using r by (auto simp: findIndex_None)
  then obtain k where k: "findIndex P xs = Some k" by auto
  from findIndex_Some [OF k] r have "\<not> k < i" "\<not> i < k" by auto
  then have "k = i" by simp
  then show "findIndex P xs = Some i" using k by simp
qed

lemma getEntityAtPosition_occupant:
  "(getEntityAtPosition st p = None \<longleftrightarrow>
      (\<forall>q \<in> set (r_quantars st). \<not> (m_hp q > 0 \<and> m_position q = p))
      \<and> mc_position (r_coreA st) \<noteq> p \<and> mc_position (r_coreB st) \<noteq> p)
   \<and> (\<forall>t. getEntityAtPosition st p = Some (QuantarRef t) \<longleftrightarrow>
         t < length (r_quantars st)
         \<and> m_hp (r_quantars st ! t) > 0 \<and> m_position (r_quantars st ! t) = p
         \<and> (\<forall>j < t. \<not> (m_hp (r_quantars st ! j) > 0 \<and> m_position (r_quantars st ! j) = p)))
   \<and> (\<forall>c. getEntityAtPosition st p = Some (CoreRef c) \<longleftrightarrow>
         (\<forall>q \<in> set (r_quantars st). \<not> (m_hp q > 0 \<and> m_position q = p))
         \<and> mc_position (coreOf st c) = p
         \<and> (c = PlayerB \<longrightarrow> mc_position (r_coreA st) \<noteq> p))"
proof (cases "findIndex (\<lambda>q. m_hp q > 0 \<and> positionsEqual (m_position q) p) (r_quantars st)")
  case None
  then have no: "\<forall>q \<in> set (r_quantars st). \<not> (m_hp q > 0 \<and> m_position q = p)"
    by (simp add: findIndex_None positionsEqual_iff)
  have no': "\<forall>t < length (r_quantars st).
      \<not> (m_hp (r_quantars st ! t) > 0 \<and> m_position (r_quantars st ! t) = p)"
    using no by simp
  have empty: "getEntityAtPosition st p = None \<longleftrightarrow>
      (\<forall>q \<in> set (r_quantars st). \<not> (m_hp q > 0 \<and> m_position q = p))
      \<and> mc_position (r_coreA st) \<noteq> p \<and> mc_position (r_coreB st) \<noteq> p"
    using None no by (auto simp: getEntityAtPosition_def positionsEqual_iff)
  have quantar: "getEntityAtPosition st p = Some (QuantarRef t) \<longleftrightarrow>
      t < length (r_quantars st)
      \<and> m_hp (r_quantars st ! t) > 0 \<and> m_position (r_quantars st ! t) = p
      \<and> (\<forall>j < t. \<not> (m_hp (r_quantars st ! j) > 0 \<and> m_position (r_quantars st ! j) = p))" for t
    using None no' by (auto simp: getEntityAtPosition_def)
  have core: "getEntityAtPosition st p = Some (CoreRef c) \<longleftrightarrow>
      (\<forall>q \<in> set (r_quantars st). \<not> (m_hp q > 0 \<and> m_position q = p))
      \<and> mc_position (coreOf st c) = p
      \<and> (c = PlayerB \<longrightarrow> mc_position (r_coreA st) \<noteq> p)" for c
    using None no
    by (cases c) (auto simp: getEntityAtPosition_def positionsEqual_iff coreOf_def)
  show ?thesis
    using empty quantar core by blast
next
  case (Some k)
  then have k: "k < length (r_quantars st)" "m_hp (r_quantars st ! k) > 0"
    "m_position (r_quantars st ! k) = p"
    using findIndex_Some [OF Some] by (simp_all add: positionsEqual_iff)
  have "r_quantars st ! k \<in> set (r_quantars st)"
    using k(1) by (rule nth_mem)
  then have live: "\<not> (\<forall>q \<in> set (r_quantars st). \<not> (m_hp q > 0 \<and> m_position q = p))"
    using k(2,3) by blast
  have "k = t \<longleftrightarrow>
      t < length (r_quantars st)
      \<and> m_hp (r_quantars st ! t) > 0 \<and> m_position (r_quantars st ! t) = p
      \<and> (\<forall>j < t. \<not> (m_hp (r_quantars st ! j) > 0 \<and> m_position (r_quantars st ! j) = p))" for t
    using Some findIndex_Some_iff
      [of "\<lambda>q. m_hp q > 0 \<and> positionsEqual (m_position q) p" "r_quantars st" t]
    by (auto simp: positionsEqual_iff)
  then show ?thesis
    using Some live by (simp add: getEntityAtPosition_def)
qed

text \<open>
  Claim C5. In phase 3, every Pulse action that names a live Quantar fires a beam from
  that Quantar's position in the state entering the phase; phase 2 moves nothing, so
  this is its position after phase 1. A diagonal beam checks exactly the cell at range 1:
  it hits the occupant of that cell if the cell is on the board and occupied, and
  misses otherwise. An orthogonal beam runs over cells that are on the board and empty
  until it reaches cell \<open>k\<close>, which is either off the board (a miss) or the first
  occupied cell, whose occupant (a live Quantar or a Core) is the target. A cell is
  empty exactly when no live Quantar stands on it and it is the cell of neither Core; its
  occupant is the first live Quantar of the state standing on it, else the Core whose cell
  it is (a dead Quantar occupies nothing, a Core occupies its cell whatever its hit
  points). The events of
  the phase are, action by action, PulseFired followed by PulseMiss or by PulseHit, the
  latter with target id \<open>core_\<close> plus the owner for a Core. After the phase the pending
  damage of every Quantar and Core has grown by \<open>PULSE_DAMAGE = 1\<close> for each pulse
  whose target it is, and by nothing else: a pulse has at most one target.
\<close>

theorem pulse_phase_beams:
  "(\<forall>p.
      (getEntityAtPosition st p = None \<longleftrightarrow>
         (\<forall>q \<in> set (r_quantars st). \<not> (m_hp q > 0 \<and> m_position q = p))
         \<and> mc_position (r_coreA st) \<noteq> p \<and> mc_position (r_coreB st) \<noteq> p)
      \<and> (\<forall>t. getEntityAtPosition st p = Some (QuantarRef t) \<longleftrightarrow>
            t < length (r_quantars st)
            \<and> m_hp (r_quantars st ! t) > 0 \<and> m_position (r_quantars st ! t) = p
            \<and> (\<forall>j < t. \<not> (m_hp (r_quantars st ! j) > 0
                            \<and> m_position (r_quantars st ! j) = p)))
      \<and> (\<forall>c. getEntityAtPosition st p = Some (CoreRef c) \<longleftrightarrow>
            (\<forall>q \<in> set (r_quantars st). \<not> (m_hp q > 0 \<and> m_position q = p))
            \<and> mc_position (coreOf st c) = p
            \<and> (c = PlayerB \<longrightarrow> mc_position (r_coreA st) \<noteq> p)))
   \<and> (\<forall>a \<in> set (pulseActions actions). \<forall>i. firing st a = Some i \<longrightarrow>
       (isDiagonalPulse (snd a) \<longrightarrow>
          pulseTarget st a =
            (if isInBounds (ray (m_position (r_quantars st ! i)) (snd a) 1)
             then getEntityAtPosition st (ray (m_position (r_quantars st ! i)) (snd a) 1)
             else None))
     \<and> (\<not> isDiagonalPulse (snd a) \<longrightarrow>
          (\<exists>k\<ge>1.
             (\<forall>j. 1 \<le> j \<and> j < k \<longrightarrow>
                isInBounds (ray (m_position (r_quantars st ! i)) (snd a) j)
                \<and> getEntityAtPosition st (ray (m_position (r_quantars st ! i)) (snd a) j) = None)
             \<and> (if isInBounds (ray (m_position (r_quantars st ! i)) (snd a) k)
                 then getEntityAtPosition st (ray (m_position (r_quantars st ! i)) (snd a) k) \<noteq> None
                      \<and> pulseTarget st a =
                          getEntityAtPosition st (ray (m_position (r_quantars st ! i)) (snd a) k)
                 else pulseTarget st a = None))))
   \<and> events (resolvePulses st actions) =
       events st @ concat (map (pulseEvents st) (pulseActions actions))
   \<and> (\<forall>t < length (r_quantars st).
        pendingDamage (r_quantars (resolvePulses st actions) ! t) =
          pendingDamage (r_quantars st ! t)
            + PULSE_DAMAGE
              * int (length (filter (\<lambda>a. pulseTarget st a = Some (QuantarRef t))
                               (pulseActions actions))))
   \<and> (\<forall>c. mc_pendingDamage (coreOf (resolvePulses st actions) c) =
          mc_pendingDamage (coreOf st c)
            + PULSE_DAMAGE
              * int (length (filter (\<lambda>a. pulseTarget st a = Some (CoreRef c))
                               (pulseActions actions))))
   \<and> PULSE_DAMAGE = 1
   \<and> board (resolvePulses st actions) = board st
   \<and> board (resolveShields st actions) = board st
   \<and> afterPulses input =
       resolvePulses
         (resolveShields
            (resolveMoves (initialResolutionState (in_state input))
               (actionsA input @ actionsB input))
            (actionsA input @ actionsB input))
         (actionsA input @ actionsB input)"
proof -
  have geo: "(isDiagonalPulse (snd a) \<longrightarrow>
          pulseTarget st a =
            (if isInBounds (ray (m_position (r_quantars st ! i)) (snd a) 1)
             then getEntityAtPosition st (ray (m_position (r_quantars st ! i)) (snd a) 1)
             else None))
     \<and> (\<not> isDiagonalPulse (snd a) \<longrightarrow>
          (\<exists>k\<ge>1.
             (\<forall>j. 1 \<le> j \<and> j < k \<longrightarrow>
                isInBounds (ray (m_position (r_quantars st ! i)) (snd a) j)
                \<and> getEntityAtPosition st (ray (m_position (r_quantars st ! i)) (snd a) j) = None)
             \<and> (if isInBounds (ray (m_position (r_quantars st ! i)) (snd a) k)
                 then getEntityAtPosition st (ray (m_position (r_quantars st ! i)) (snd a) k) \<noteq> None
                      \<and> pulseTarget st a =
                          getEntityAtPosition st (ray (m_position (r_quantars st ! i)) (snd a) k)
                 else pulseTarget st a = None)))"
    if "firing st a = Some i" for a i
  proof (cases "isDiagonalPulse (snd a)")
    case True
    then show ?thesis
      using that by (simp add: pulseTarget_def hitTarget_def Let_def ray_1)
  next
    case False
    then have eq: "pulseTarget st a = tracePulse st (m_position (r_quantars st ! i)) (snd a)"
      using that by (simp add: pulseTarget_def hitTarget_def)
    show ?thesis
      unfolding eq
      using False tracePulse_first_occupant [of "m_position (r_quantars st ! i)" "snd a" st]
      by blast
  qed
  have occ: "(getEntityAtPosition st p = None \<longleftrightarrow>
         (\<forall>q \<in> set (r_quantars st). \<not> (m_hp q > 0 \<and> m_position q = p))
         \<and> mc_position (r_coreA st) \<noteq> p \<and> mc_position (r_coreB st) \<noteq> p)
      \<and> (\<forall>t. getEntityAtPosition st p = Some (QuantarRef t) \<longleftrightarrow>
            t < length (r_quantars st)
            \<and> m_hp (r_quantars st ! t) > 0 \<and> m_position (r_quantars st ! t) = p
            \<and> (\<forall>j < t. \<not> (m_hp (r_quantars st ! j) > 0
                            \<and> m_position (r_quantars st ! j) = p)))
      \<and> (\<forall>c. getEntityAtPosition st p = Some (CoreRef c) \<longleftrightarrow>
            (\<forall>q \<in> set (r_quantars st). \<not> (m_hp q > 0 \<and> m_position q = p))
            \<and> mc_position (coreOf st c) = p
            \<and> (c = PlayerB \<longrightarrow> mc_position (r_coreA st) \<noteq> p))" for p
    by (rule getEntityAtPosition_occupant)
  have rest: "(\<forall>a \<in> set (pulseActions actions). \<forall>i. firing st a = Some i \<longrightarrow>
       (isDiagonalPulse (snd a) \<longrightarrow>
          pulseTarget st a =
            (if isInBounds (ray (m_position (r_quantars st ! i)) (snd a) 1)
             then getEntityAtPosition st (ray (m_position (r_quantars st ! i)) (snd a) 1)
             else None))
     \<and> (\<not> isDiagonalPulse (snd a) \<longrightarrow>
          (\<exists>k\<ge>1.
             (\<forall>j. 1 \<le> j \<and> j < k \<longrightarrow>
                isInBounds (ray (m_position (r_quantars st ! i)) (snd a) j)
                \<and> getEntityAtPosition st (ray (m_position (r_quantars st ! i)) (snd a) j) = None)
             \<and> (if isInBounds (ray (m_position (r_quantars st ! i)) (snd a) k)
                 then getEntityAtPosition st (ray (m_position (r_quantars st ! i)) (snd a) k) \<noteq> None
                      \<and> pulseTarget st a =
                          getEntityAtPosition st (ray (m_position (r_quantars st ! i)) (snd a) k)
                 else pulseTarget st a = None))))
   \<and> events (resolvePulses st actions) =
       events st @ concat (map (pulseEvents st) (pulseActions actions))
   \<and> (\<forall>t < length (r_quantars st).
        pendingDamage (r_quantars (resolvePulses st actions) ! t) =
          pendingDamage (r_quantars st ! t)
            + PULSE_DAMAGE
              * int (length (filter (\<lambda>a. pulseTarget st a = Some (QuantarRef t))
                               (pulseActions actions))))
   \<and> (\<forall>c. mc_pendingDamage (coreOf (resolvePulses st actions) c) =
          mc_pendingDamage (coreOf st c)
            + PULSE_DAMAGE
              * int (length (filter (\<lambda>a. pulseTarget st a = Some (CoreRef c))
                               (pulseActions actions))))
   \<and> PULSE_DAMAGE = 1
   \<and> board (resolvePulses st actions) = board st
   \<and> board (resolveShields st actions) = board st
   \<and> afterPulses input =
       resolvePulses
         (resolveShields
            (resolveMoves (initialResolutionState (in_state input))
               (actionsA input @ actionsB input))
            (actionsA input @ actionsB input))
         (actionsA input @ actionsB input)"
    using geo foldl_resolvePulse [of st "pulseActions actions"]
    by (simp add: resolvePulses_def [symmetric] PULSE_DAMAGE_def afterPulses_def Let_def)
  from occ rest show ?thesis
    by (intro conjI allI) blast+
qed

text \<open>
  Five turns. From the test suite: \<open>B2\<close> has stepped south to (4,3) in phase 1 and is
  hit there by the beam of \<open>A2\<close>. The siege: two beams end on Core \<open>A\<close>, the cell
  (4,8) being occupied by that Core. The turn in which \<open>B1\<close>, \<open>B2\<close> and \<open>B3\<close> step
  aside: the beam of \<open>A1\<close> leaves the board, that of \<open>A2\<close> runs over the emptied
  cells to Core \<open>B\<close>, that of \<open>A3\<close> hits \<open>B2\<close> on the cell it has moved to. The
  diagonal pulse of \<open>A1\<close> at \<open>B1\<close>. And the beam that runs over the cell of the dead
  \<open>B1\<close>, which is empty, to Core \<open>A\<close>.
\<close>

theorem pulse_phase_beams_witness:
  "m_position (r_quantars (beforePulses movedIntoBeamInput) ! 4) = \<lparr>pos_x = 4, pos_y = 3\<rparr>
   \<and> pulseTarget (beforePulses movedIntoBeamInput) (''A2'', PulseNorth) = Some (QuantarRef 4)
   \<and> pendingDamage (r_quantars (afterPulses movedIntoBeamInput) ! 4) = 1
   \<and> events (afterPulses movedIntoBeamInput) =
       events (beforePulses movedIntoBeamInput)
       @ [PulseFired ''A2'' \<lparr>pos_x = 4, pos_y = 6\<rparr> PulseNorth, PulseHit ''B2'' EntityQuantar 1]
   \<and> getEntityAtPosition (beforePulses siegeInput) \<lparr>pos_x = 4, pos_y = 8\<rparr>
       = Some (CoreRef PlayerA)
   \<and> getEntityAtPosition (beforePulses siegeInput) \<lparr>pos_x = 4, pos_y = 7\<rparr>
       = Some (QuantarRef 1)
   \<and> getEntityAtPosition (beforePulses siegeInput) \<lparr>pos_x = 4, pos_y = 6\<rparr> = None
   \<and> mc_pendingDamage (coreOf (afterPulses siegeInput) PlayerA) = 2
   \<and> events (afterPulses siegeInput) =
       events (beforePulses siegeInput)
       @ [PulseFired ''B1'' \<lparr>pos_x = 4, pos_y = 7\<rparr> PulseSouth, PulseHit ''core_A'' EntityCore 1,
          PulseFired ''B2'' \<lparr>pos_x = 3, pos_y = 8\<rparr> PulseEast, PulseHit ''core_A'' EntityCore 1]
   \<and> mc_pendingDamage (coreOf (afterPulses followInput) PlayerB) = 1
   \<and> events (afterPulses followInput) =
       events (beforePulses followInput)
       @ [PulseFired ''A1'' \<lparr>pos_x = 3, pos_y = 6\<rparr> PulseNorth, PulseMiss ''A1'',
          PulseFired ''A2'' \<lparr>pos_x = 4, pos_y = 6\<rparr> PulseNorth, PulseHit ''core_B'' EntityCore 1,
          PulseFired ''A3'' \<lparr>pos_x = 5, pos_y = 6\<rparr> PulseNorth, PulseHit ''B2'' EntityQuantar 1]
   \<and> events (afterPulses meleeInput) =
       events (beforePulses meleeInput)
       @ [PulseFired ''A1'' \<lparr>pos_x = 3, pos_y = 6\<rparr> SouthEast, PulseHit ''B1'' EntityQuantar 1]
   \<and> m_hp (r_quantars (beforePulses wreckInput) ! 1) = 0
   \<and> m_position (r_quantars (beforePulses wreckInput) ! 1) = \<lparr>pos_x = 4, pos_y = 7\<rparr>
   \<and> getEntityAtPosition (beforePulses wreckInput) \<lparr>pos_x = 4, pos_y = 7\<rparr> = None
   \<and> mc_pendingDamage (coreOf (afterPulses wreckInput) PlayerA) = 1
   \<and> events (afterPulses wreckInput) =
       events (beforePulses wreckInput)
       @ [PulseFired ''A1'' \<lparr>pos_x = 4, pos_y = 6\<rparr> PulseSouth, PulseHit ''core_A'' EntityCore 1]"
proof -
  let ?all = "actionsA movedIntoBeamInput @ actionsB movedIntoBeamInput"
  let ?st = "beforePulses movedIntoBeamInput"
  note moved = pulse_phase_beams [where actions = ?all and st = ?st and input = movedIntoBeamInput,
      THEN conjunct2, THEN conjunct2]
  have pos: "m_position (r_quantars ?st ! 4) = \<lparr>pos_x = 4, pos_y = 3\<rparr>"
    by code_simp
  have tgt: "pulseTarget ?st (''A2'', PulseNorth) = Some (QuantarRef 4)"
    by code_simp
  have len: "4 < length (r_quantars ?st)"
    by code_simp
  have pd: "pendingDamage (r_quantars ?st ! 4) = 0"
    by code_simp
  have cnt: "length (filter (\<lambda>a. pulseTarget ?st a = Some (QuantarRef 4)) (pulseActions ?all)) = 1"
    by code_simp
  have evs: "concat (map (pulseEvents ?st) (pulseActions ?all)) =
      [PulseFired ''A2'' \<lparr>pos_x = 4, pos_y = 6\<rparr> PulseNorth, PulseHit ''B2'' EntityQuantar 1]"
    by code_simp
  have after: "afterPulses movedIntoBeamInput = resolvePulses ?st ?all"
    using moved by (simp add: beforePulses_def)
  have one: "pendingDamage (r_quantars (afterPulses movedIntoBeamInput) ! 4) = 1
      \<and> events (afterPulses movedIntoBeamInput) =
        events ?st
        @ [PulseFired ''A2'' \<lparr>pos_x = 4, pos_y = 6\<rparr> PulseNorth, PulseHit ''B2'' EntityQuantar 1]"
    unfolding after
    using moved [THEN conjunct1] moved [THEN conjunct2, THEN conjunct1]
      moved [THEN conjunct2, THEN conjunct2, THEN conjunct2, THEN conjunct1] len pd cnt evs
    by simp

  let ?sall = "actionsA siegeInput @ actionsB siegeInput"
  let ?sst = "beforePulses siegeInput"
  note sieged = pulse_phase_beams [where actions = ?sall and st = ?sst and input = siegeInput]
  note s_occ = sieged [THEN conjunct1, THEN spec]
  note s_rest = sieged [THEN conjunct2, THEN conjunct2]
  have s_core: "list_all (\<lambda>q. \<not> (m_hp q > 0 \<and> m_position q = \<lparr>pos_x = 4, pos_y = 8\<rparr>))
        (r_quantars ?sst)
      \<and> mc_position (coreOf ?sst PlayerA) = \<lparr>pos_x = 4, pos_y = 8\<rparr>"
    by code_simp
  have s_quantar: "1 < length (r_quantars ?sst) \<and> m_hp (r_quantars ?sst ! 1) > 0
      \<and> m_position (r_quantars ?sst ! 1) = \<lparr>pos_x = 4, pos_y = 7\<rparr>
      \<and> \<not> (m_hp (r_quantars ?sst ! 0) > 0
            \<and> m_position (r_quantars ?sst ! 0) = \<lparr>pos_x = 4, pos_y = 7\<rparr>)"
    by code_simp
  have s_empty: "list_all (\<lambda>q. \<not> (m_hp q > 0 \<and> m_position q = \<lparr>pos_x = 4, pos_y = 6\<rparr>))
        (r_quantars ?sst)
      \<and> mc_position (r_coreA ?sst) \<noteq> \<lparr>pos_x = 4, pos_y = 6\<rparr>
      \<and> mc_position (r_coreB ?sst) \<noteq> \<lparr>pos_x = 4, pos_y = 6\<rparr>"
    by code_simp
  have s_pd: "mc_pendingDamage (coreOf ?sst PlayerA) = 0"
    by code_simp
  have s_cnt: "length (filter (\<lambda>a. pulseTarget ?sst a = Some (CoreRef PlayerA))
      (pulseActions ?sall)) = 2"
    by code_simp
  have s_evs: "concat (map (pulseEvents ?sst) (pulseActions ?sall)) =
      [PulseFired ''B1'' \<lparr>pos_x = 4, pos_y = 7\<rparr> PulseSouth, PulseHit ''core_A'' EntityCore 1,
       PulseFired ''B2'' \<lparr>pos_x = 3, pos_y = 8\<rparr> PulseEast, PulseHit ''core_A'' EntityCore 1]"
    by code_simp
  have s_after: "afterPulses siegeInput = resolvePulses ?sst ?sall"
    using s_rest by (simp add: beforePulses_def)
  have two_a: "getEntityAtPosition ?sst \<lparr>pos_x = 4, pos_y = 8\<rparr> = Some (CoreRef PlayerA)"
    using s_occ [of "\<lparr>pos_x = 4, pos_y = 8\<rparr>"] s_core unfolding list_all_iff by blast
  have "\<forall>j < (1::nat). \<not> (m_hp (r_quantars ?sst ! j) > 0
      \<and> m_position (r_quantars ?sst ! j) = \<lparr>pos_x = 4, pos_y = 7\<rparr>)"
    using s_quantar by simp
  then have two_b: "getEntityAtPosition ?sst \<lparr>pos_x = 4, pos_y = 7\<rparr> = Some (QuantarRef 1)"
    using s_occ [of "\<lparr>pos_x = 4, pos_y = 7\<rparr>"] s_quantar by blast
  have two_c: "getEntityAtPosition ?sst \<lparr>pos_x = 4, pos_y = 6\<rparr> = None"
    using s_occ [of "\<lparr>pos_x = 4, pos_y = 6\<rparr>"] s_empty unfolding list_all_iff by blast
  have two_d: "mc_pendingDamage (coreOf (afterPulses siegeInput) PlayerA) = 2
      \<and> events (afterPulses siegeInput) =
        events ?sst
        @ [PulseFired ''B1'' \<lparr>pos_x = 4, pos_y = 7\<rparr> PulseSouth, PulseHit ''core_A'' EntityCore 1,
           PulseFired ''B2'' \<lparr>pos_x = 3, pos_y = 8\<rparr> PulseEast, PulseHit ''core_A'' EntityCore 1]"
    unfolding s_after
    using s_rest [THEN conjunct1]
      s_rest [THEN conjunct2, THEN conjunct2, THEN conjunct1, THEN spec, of PlayerA]
      s_rest [THEN conjunct2, THEN conjunct2, THEN conjunct2, THEN conjunct1] s_pd s_cnt s_evs
    by simp

  let ?fall = "actionsA followInput @ actionsB followInput"
  let ?fst = "beforePulses followInput"
  note f_rest = pulse_phase_beams [where actions = ?fall and st = ?fst and input = followInput,
      THEN conjunct2, THEN conjunct2]
  have f_pd: "mc_pendingDamage (coreOf ?fst PlayerB) = 0"
    by code_simp
  have f_cnt: "length (filter (\<lambda>a. pulseTarget ?fst a = Some (CoreRef PlayerB))
      (pulseActions ?fall)) = 1"
    by code_simp
  have f_evs: "concat (map (pulseEvents ?fst) (pulseActions ?fall)) =
      [PulseFired ''A1'' \<lparr>pos_x = 3, pos_y = 6\<rparr> PulseNorth, PulseMiss ''A1'',
       PulseFired ''A2'' \<lparr>pos_x = 4, pos_y = 6\<rparr> PulseNorth, PulseHit ''core_B'' EntityCore 1,
       PulseFired ''A3'' \<lparr>pos_x = 5, pos_y = 6\<rparr> PulseNorth, PulseHit ''B2'' EntityQuantar 1]"
    by code_simp
  have f_after: "afterPulses followInput = resolvePulses ?fst ?fall"
    using f_rest by (simp add: beforePulses_def)
  have three: "mc_pendingDamage (coreOf (afterPulses followInput) PlayerB) = 1
      \<and> events (afterPulses followInput) =
        events ?fst
        @ [PulseFired ''A1'' \<lparr>pos_x = 3, pos_y = 6\<rparr> PulseNorth, PulseMiss ''A1'',
           PulseFired ''A2'' \<lparr>pos_x = 4, pos_y = 6\<rparr> PulseNorth, PulseHit ''core_B'' EntityCore 1,
           PulseFired ''A3'' \<lparr>pos_x = 5, pos_y = 6\<rparr> PulseNorth, PulseHit ''B2'' EntityQuantar 1]"
    unfolding f_after
    using f_rest [THEN conjunct1]
      f_rest [THEN conjunct2, THEN conjunct2, THEN conjunct1, THEN spec, of PlayerB]
      f_rest [THEN conjunct2, THEN conjunct2, THEN conjunct2, THEN conjunct1] f_pd f_cnt f_evs
    by simp

  let ?mall = "actionsA meleeInput @ actionsB meleeInput"
  let ?mst = "beforePulses meleeInput"
  note m_rest = pulse_phase_beams [where actions = ?mall and st = ?mst and input = meleeInput,
      THEN conjunct2, THEN conjunct2]
  have m_evs: "concat (map (pulseEvents ?mst) (pulseActions ?mall)) =
      [PulseFired ''A1'' \<lparr>pos_x = 3, pos_y = 6\<rparr> SouthEast, PulseHit ''B1'' EntityQuantar 1]"
    by code_simp
  have m_after: "afterPulses meleeInput = resolvePulses ?mst ?mall"
    using m_rest by (simp add: beforePulses_def)
  have four: "events (afterPulses meleeInput) =
        events ?mst
        @ [PulseFired ''A1'' \<lparr>pos_x = 3, pos_y = 6\<rparr> SouthEast, PulseHit ''B1'' EntityQuantar 1]"
    unfolding m_after using m_rest [THEN conjunct1] m_evs by simp

  let ?wall = "actionsA wreckInput @ actionsB wreckInput"
  let ?wst = "beforePulses wreckInput"
  note wrecked = pulse_phase_beams [where actions = ?wall and st = ?wst and input = wreckInput]
  note w_occ = wrecked [THEN conjunct1, THEN spec]
  note w_rest = wrecked [THEN conjunct2, THEN conjunct2]
  have w_dead: "m_hp (r_quantars ?wst ! 1) = 0
      \<and> m_position (r_quantars ?wst ! 1) = \<lparr>pos_x = 4, pos_y = 7\<rparr>"
    by code_simp
  have w_empty: "list_all (\<lambda>q. \<not> (m_hp q > 0 \<and> m_position q = \<lparr>pos_x = 4, pos_y = 7\<rparr>))
        (r_quantars ?wst)
      \<and> mc_position (r_coreA ?wst) \<noteq> \<lparr>pos_x = 4, pos_y = 7\<rparr>
      \<and> mc_position (r_coreB ?wst) \<noteq> \<lparr>pos_x = 4, pos_y = 7\<rparr>"
    by code_simp
  have w_pd: "mc_pendingDamage (coreOf ?wst PlayerA) = 0"
    by code_simp
  have w_cnt: "length (filter (\<lambda>a. pulseTarget ?wst a = Some (CoreRef PlayerA))
      (pulseActions ?wall)) = 1"
    by code_simp
  have w_evs: "concat (map (pulseEvents ?wst) (pulseActions ?wall)) =
      [PulseFired ''A1'' \<lparr>pos_x = 4, pos_y = 6\<rparr> PulseSouth, PulseHit ''core_A'' EntityCore 1]"
    by code_simp
  have w_after: "afterPulses wreckInput = resolvePulses ?wst ?wall"
    using w_rest by (simp add: beforePulses_def)
  have five_a: "getEntityAtPosition ?wst \<lparr>pos_x = 4, pos_y = 7\<rparr> = None"
    using w_occ [of "\<lparr>pos_x = 4, pos_y = 7\<rparr>"] w_empty unfolding list_all_iff by blast
  have five_b: "mc_pendingDamage (coreOf (afterPulses wreckInput) PlayerA) = 1
      \<and> events (afterPulses wreckInput) =
        events ?wst
        @ [PulseFired ''A1'' \<lparr>pos_x = 4, pos_y = 6\<rparr> PulseSouth, PulseHit ''core_A'' EntityCore 1]"
    unfolding w_after
    using w_rest [THEN conjunct1]
      w_rest [THEN conjunct2, THEN conjunct2, THEN conjunct1, THEN spec, of PlayerA]
      w_rest [THEN conjunct2, THEN conjunct2, THEN conjunct2, THEN conjunct1] w_pd w_cnt w_evs
    by simp

  show ?thesis
    using pos tgt one two_a two_b two_c two_d three four w_dead five_a five_b by simp
qed

section \<open>Moves onto an occupied cell\<close>

text \<open>
  Claim C3 says that a move onto a cell occupied by another live Quantar is dropped
  with a MoveBlocked event (reason \<open>blocked by stationary Quantar\<close>) also when the
  occupant has an intended move to a third cell. The code drops the move only when the
  occupant has no valid intended move. In the turn below, taken from the test suite,
  \<open>B2\<close> moves east from (4,2) onto (5,2); the cell is occupied by \<open>B3\<close>, whose own
  move goes east to (6,2), a third cell. The move of \<open>B2\<close> is applied and the phase
  emits three Move events and no MoveBlocked event.
\<close>

theorem follower_not_blocked:
  "move_from (validMoves (initialResolutionState (in_state followInput))
       (fst (intendedMoves (initialResolutionState (in_state followInput))
          (moveActions (actionsA followInput @ actionsB followInput)))) ! 1) = \<lparr>pos_x = 4, pos_y = 2\<rparr>
   \<and> move_to (validMoves (initialResolutionState (in_state followInput))
       (fst (intendedMoves (initialResolutionState (in_state followInput))
          (moveActions (actionsA followInput @ actionsB followInput)))) ! 1) = \<lparr>pos_x = 5, pos_y = 2\<rparr>
   \<and> map_option m_id
        (targetOccupant (initialResolutionState (in_state followInput))
          (validMoves (initialResolutionState (in_state followInput))
            (fst (intendedMoves (initialResolutionState (in_state followInput))
               (moveActions (actionsA followInput @ actionsB followInput)))) ! 1)) = Some ''B3''
   \<and> map_option move_to
        (movesByQuantar (initialResolutionState (in_state followInput))
          (validMoves (initialResolutionState (in_state followInput))
            (fst (intendedMoves (initialResolutionState (in_state followInput))
               (moveActions (actionsA followInput @ actionsB followInput))))) ''B3'')
       = Some \<lparr>pos_x = 6, pos_y = 2\<rparr>
   \<and> events (resolveMoves (initialResolutionState (in_state followInput))
        (actionsA followInput @ actionsB followInput)) =
       [Move ''B1'' \<lparr>pos_x = 3, pos_y = 2\<rparr> \<lparr>pos_x = 2, pos_y = 2\<rparr>,
        Move ''B2'' \<lparr>pos_x = 4, pos_y = 2\<rparr> \<lparr>pos_x = 5, pos_y = 2\<rparr>,
        Move ''B3'' \<lparr>pos_x = 5, pos_y = 2\<rparr> \<lparr>pos_x = 6, pos_y = 2\<rparr>]"
  by code_simp

theorem follower_not_blocked_witness:
  "MoveBlocked ''B2'' \<lparr>pos_x = 4, pos_y = 2\<rparr> East ''blocked by stationary Quantar''
     \<notin> set (events (resolveMoves (initialResolutionState (in_state followInput))
                (actionsA followInput @ actionsB followInput)))"
  using follower_not_blocked by simp

text \<open>
  Claim C4 says that from a state whose live Quantars stand on pairwise distinct cells,
  none of them on a Core's cell, every turn leads to a state with the same property. The
  code breaks it when the occupant of a destination has a valid intended move that is
  then blocked by a collision. In the turn below both players' actions pass
  \<open>validatePlayerActions\<close>; \<open>A2\<close> and \<open>B2\<close> contend for (4,5) and both stay,
  while \<open>A1\<close> steps onto (4,6), where \<open>A2\<close> still stands: the returned state has two
  live Quantars on one cell.
\<close>

theorem blocked_leader_shares_cell:
  "distinct (map q_position (quantars (in_state crowdedInput)))
   \<and> list_all (\<lambda>q. q_position q \<noteq> c_position (coreA (in_state crowdedInput))
                  \<and> q_position q \<noteq> c_position (coreB (in_state crowdedInput)))
        (quantars (in_state crowdedInput))
   \<and> validatePlayerActions (in_state crowdedInput) (actionsA crowdedInput) PlayerA = Valid
   \<and> validatePlayerActions (in_state crowdedInput) (actionsB crowdedInput) PlayerB = Valid
   \<and> map (\<lambda>q. (q_id q, q_position q, q_hp q)) (quantars (state (resolveTurn crowdedInput))) =
       [(''A1'', \<lparr>pos_x = 4, pos_y = 6\<rparr>, 2), (''A2'', \<lparr>pos_x = 4, pos_y = 6\<rparr>, 2),
        (''A3'', \<lparr>pos_x = 5, pos_y = 6\<rparr>, 2), (''B1'', \<lparr>pos_x = 3, pos_y = 2\<rparr>, 2),
        (''B2'', \<lparr>pos_x = 4, pos_y = 4\<rparr>, 2), (''B3'', \<lparr>pos_x = 5, pos_y = 2\<rparr>, 2)]
   \<and> take 3 (log_events (log (resolveTurn crowdedInput))) =
       [MoveBlocked ''A2'' \<lparr>pos_x = 4, pos_y = 6\<rparr> North ''collision with another Quantar'',
        MoveBlocked ''B2'' \<lparr>pos_x = 4, pos_y = 4\<rparr> South ''collision with another Quantar'',
        Move ''A1'' \<lparr>pos_x = 3, pos_y = 6\<rparr> \<lparr>pos_x = 4, pos_y = 6\<rparr>]"
  by code_simp

theorem blocked_leader_shares_cell_witness:
  "\<not> distinct (map q_position (quantars (state (resolveTurn crowdedInput))))"
proof -
  have "map q_position (quantars (state (resolveTurn crowdedInput))) =
      map (fst \<circ> snd) (map (\<lambda>q. (q_id q, q_position q, q_hp q))
        (quantars (state (resolveTurn crowdedInput))))"
    by (simp add: comp_def)
  then show ?thesis
    using blocked_leader_shares_cell by simp
qed

end
